theory Spec2Isabelle
  imports Main "HOL-Library.Sublist"
begin

section \<open>JavaScript strings\<close>

text \<open>
  A JavaScript string is a sequence of UTF-16 code units. A code unit is modelled as a
  natural number (0 .. 0xFFFF), a string as the list of its code units; \<open>js\<close> reads an
  ASCII literal. The regular expressions of the source have no \<open>u\<close> flag, so they match
  code unit by code unit, as the list functions below do.
\<close>

type_synonym jschar = nat
type_synonym jsstring = "jschar list"

definition js :: "string \<Rightarrow> jsstring" where
  "js s = map of_char s"

definition chNewline :: jschar where "chNewline = 0x0A"
definition chCarriageReturn :: jschar where "chCarriageReturn = 0x0D"
definition chSpace :: jschar where "chSpace = 0x20"
definition chQuote :: jschar where "chQuote = 0x22"
definition chDollar :: jschar where "chDollar = 0x24"
definition chDot :: jschar where "chDot = 0x2E"
definition chSlash :: jschar where "chSlash = 0x2F"
definition chBackslash :: jschar where "chBackslash = 0x5C"
definition chBacktick :: jschar where "chBacktick = 0x60"
definition chLBrace :: jschar where "chLBrace = 0x7B"
definition chPipe :: jschar where "chPipe = 0x7C"
definition chRBrace :: jschar where "chRBrace = 0x7D"
definition chNbsp :: jschar where "chNbsp = 0xA0"

text \<open>The line terminators of ECMAScript: the characters that \<open>.\<close> does not match.\<close>

definition isLineTerminator :: "jschar \<Rightarrow> bool" where
  "isLineTerminator c = (c = 0x0A \<or> c = 0x0D \<or> c = 0x2028 \<or> c = 0x2029)"

definition isHighSurrogate :: "jschar \<Rightarrow> bool" where
  "isHighSurrogate c = (0xD800 \<le> c \<and> c \<le> 0xDBFF)"

definition isLowSurrogate :: "jschar \<Rightarrow> bool" where
  "isLowSurrogate c = (0xDC00 \<le> c \<and> c \<le> 0xDFFF)"

text \<open>
  \<open>for (let c of s)\<close> iterates a string by code points: a high surrogate followed by a
  low surrogate is one element of two code units, every other code unit is an element
  of its own.
\<close>

fun codePoints :: "jsstring \<Rightarrow> jsstring list" where
  "codePoints [] = []"
| "codePoints [a] = [[a]]"
| "codePoints (a # b # cs) =
     (if isHighSurrogate a \<and> isLowSurrogate b then [a, b] # codePoints cs
      else [a] # codePoints (b # cs))"

text \<open>
  \<open>subject.replace(new RegExp(p, 'g'), '')\<close> for a pattern \<open>p\<close> that matches exactly
  the literal text \<open>lit\<close>: the occurrences are found from left to right, the search
  resuming after each one, and removed.
\<close>

function removeAllLit :: "jsstring \<Rightarrow> jsstring \<Rightarrow> jsstring" where
  "removeAllLit lit [] = []"
| "removeAllLit lit (x # xs) =
     (if lit \<noteq> [] \<and> prefix lit (x # xs)
      then removeAllLit lit (drop (length lit) (x # xs))
      else x # removeAllLit lit xs)"
  by pat_completeness auto
termination
  by (relation "measure (\<lambda>(lit, s). length s)") (auto simp: neq_Nil_conv)

section \<open>The platform\<close>

text \<open>
  What the code takes from the JavaScript engine and from bundled libraries is a
  parameter of the model:
  \<^item> \<open>regexpReplace src subject replacement\<close> is
    \<^verbatim>\<open>subject.replace(new RegExp(src, 'g'), replacement)\<close> for a pattern built at run time
    from text of the document; \<open>None\<close> when the constructor throws a SyntaxError;
  \<^item> \<open>momentFormat format\<close> is \<^verbatim>\<open>moment(now).format(format)\<close>;
  \<^item> \<open>toLowerCase\<close> and \<open>toUpperCase\<close> are the Unicode case mappings of strings;
  \<^item> \<open>jsonUnescape s\<close> is \<^verbatim>\<open>JSON.parse(JSON.stringify(s).replace(/\\\\/g, '\\'))\<close>, \<open>None\<close>
    when JSON.parse throws;
  \<^item> \<open>parseURL s\<close> is \<^verbatim>\<open>new URL(s)\<close> with the \<open>origin\<close>, the \<open>pathname\<close> and the \<open>href\<close> (the
    whole serialized URL, query and fragment included) of the result, \<open>None\<close> when the
    constructor throws (the string is not an absolute URL);
  \<^item> \<open>inheritedText k\<close> is the string that the property \<open>k\<close> of \<open>Object.prototype\<close> converts to
    when it is compared with a string (\<^verbatim>\<open>({})[k] != 'text'\<close>): the source text of a built-in
    function, which differs between engines, and \<open>[object Object]\<close> for \<open>__proto__\<close>; \<open>None\<close>
    when \<open>Object.prototype\<close> has no property \<open>k\<close>.
  The patterns written in the source itself are modelled by the functions of this theory.
  The errors are the SyntaxError and the TypeError that the engine throws, and the
  rejection of a promise.
\<close>

datatype jserror = SyntaxError | TypeError | Rejected

record url =
  origin :: jsstring
  pathname :: jsstring
  href :: jsstring

record platform =
  regexpReplace :: "jsstring \<Rightarrow> jsstring \<Rightarrow> jsstring \<Rightarrow> jsstring option"
  momentFormat :: "jsstring \<Rightarrow> jsstring"
  toLowerCase :: "jsstring \<Rightarrow> jsstring"
  toUpperCase :: "jsstring \<Rightarrow> jsstring"
  jsonUnescape :: "jsstring \<Rightarrow> jsstring option"
  parseURL :: "jsstring \<Rightarrow> url option"
  inheritedText :: "jsstring \<Rightarrow> jsstring option"

definition bindE :: "jserror + 'a \<Rightarrow> ('a \<Rightarrow> jserror + 'b) \<Rightarrow> jserror + 'b" where
  "bindE m f = (case m of Inl e \<Rightarrow> Inl e | Inr x \<Rightarrow> f x)"

definition regexpReplaceE :: "platform \<Rightarrow> jsstring \<Rightarrow> jsstring \<Rightarrow> jsstring \<Rightarrow> jserror + jsstring" where
  "regexpReplaceE P src subject replacement =
     (case regexpReplace P src subject replacement of
        None \<Rightarrow> Inl SyntaxError
      | Some r \<Rightarrow> Inr r)"

section \<open>String built-ins\<close>

text \<open>Number to string, for a natural number.\<close>

function showNat :: "nat \<Rightarrow> jsstring" where
  "showNat n = (if n < 10 then [0x30 + n] else showNat (n div 10) @ [0x30 + n mod 10])"
  by pat_completeness auto
termination
  by (relation "measure (\<lambda>n. n)") auto

declare showNat.simps [simp del]

text \<open>\<open>parts.join(sep)\<close> and \<open>s.split(sep)\<close> for a separator of one code unit.\<close>

fun joinWith :: "jsstring \<Rightarrow> jsstring list \<Rightarrow> jsstring" where
  "joinWith sep [] = []"
| "joinWith sep [p] = p"
| "joinWith sep (p # q # ps) = p @ sep @ joinWith sep (q # ps)"

fun splitOn :: "jschar \<Rightarrow> jsstring \<Rightarrow> jsstring list" where
  "splitOn sep [] = [[]]"
| "splitOn sep (c # cs) =
     (if c = sep then [] # splitOn sep cs
      else (case splitOn sep cs of [] \<Rightarrow> [[c]] | p # ps \<Rightarrow> (c # p) # ps))"

text \<open>
  \<open>s.substring(a, b)\<close>: both indices are clamped to the length, and swapped when the
  first is the larger. The source computes some of them by subtraction, so they are
  integers here.
\<close>

definition substring :: "jsstring \<Rightarrow> int \<Rightarrow> int \<Rightarrow> jsstring" where
  "substring s a b =
     (let n = int (length s);
          a' = min (max a 0) n;
          b' = min (max b 0) n;
          lo = min a' b';
          hi = max a' b'
      in take (nat (hi - lo)) (drop (nat lo) s))"

text \<open>
  The substitution of \<open>$\<close> patterns in a replacement string, for a pattern without
  capture groups: \<open>$$\<close> is a dollar sign, \<open>$&\<close> the matched text, \<open>$`\<close> the text before
  the match and \<open>$'\<close> the text after it; every other \<open>$\<close> stands for itself.
\<close>

fun expandDollar :: "jsstring \<Rightarrow> jsstring \<Rightarrow> jsstring \<Rightarrow> jsstring \<Rightarrow> jsstring" where
  "expandDollar matched before after (c # d # rest) =
     (if c = chDollar \<and> d = chDollar then chDollar # expandDollar matched before after rest
      else if c = chDollar \<and> d = 0x26 then matched @ expandDollar matched before after rest
      else if c = chDollar \<and> d = chBacktick then before @ expandDollar matched before after rest
      else if c = chDollar \<and> d = 0x27 then after @ expandDollar matched before after rest
      else c # expandDollar matched before after (d # rest))"
| "expandDollar matched before after cs = cs"

text \<open>
  \<open>subject.replaceAll(pat, replacement)\<close> for a string pattern that is not empty: the
  occurrences are found from left to right without overlap; \<open>before\<close> is the text of the
  subject already passed.
\<close>

function replaceAllFrom :: "jsstring \<Rightarrow> jsstring \<Rightarrow> jsstring \<Rightarrow> jsstring \<Rightarrow> jsstring" where
  "replaceAllFrom pat replacement before [] = []"
| "replaceAllFrom pat replacement before (x # xs) =
     (if pat \<noteq> [] \<and> prefix pat (x # xs)
      then expandDollar pat before (drop (length pat) (x # xs)) replacement
           @ replaceAllFrom pat replacement (before @ pat) (drop (length pat) (x # xs))
      else x # replaceAllFrom pat replacement (before @ [x]) xs)"
  by pat_completeness auto
termination
  by (relation "measure (\<lambda>(pat, replacement, before, s). length s)") (auto simp: neq_Nil_conv)

definition replaceAllStr :: "jsstring \<Rightarrow> jsstring \<Rightarrow> jsstring \<Rightarrow> jsstring" where
  "replaceAllStr subject pat replacement = replaceAllFrom pat replacement [] subject"

text \<open>The white space that \<open>trim\<close> removes, line terminators apart.\<close>

definition isWhiteSpace :: "jschar \<Rightarrow> bool" where
  "isWhiteSpace c =
     (c = 0x09 \<or> c = 0x0B \<or> c = 0x0C \<or> c = 0x20 \<or> c = 0xA0 \<or> c = 0x1680
      \<or> (0x2000 \<le> c \<and> c \<le> 0x200A) \<or> c = 0x202F \<or> c = 0x205F \<or> c = 0x3000
      \<or> c = 0xFEFF)"

section \<open>Sanitization: generateValidFileName\<close>

text \<open>
  \<^verbatim>\<open>
  function generateValidFileName(title, disallowedChars = null) {
    if (!title) return title;
    else title = title + '';
    var illegalRe = /[\/\?<>\\:\*\|":]/g;
    var name = title.replace(illegalRe, "").replace(new RegExp('\u00A0', 'g'), ' ');
    if (disallowedChars) {
      for (let c of disallowedChars) {
        if (`[\\^$.|?*+()`.includes(c)) c = `\\${c}`;
        name = name.replace(new RegExp(c, 'g'), '');
      }
    }
    return name;
  }
  \<close>
  The title is \<open>None\<close> for \<open>null\<close> or \<open>undefined\<close> and \<open>Some s\<close> for a string; the
  disallowed characters likewise.
\<close>

definition illegalChars :: "jschar list" where
  "illegalChars = [0x2F, 0x3F, 0x3C, 0x3E, 0x5C, 0x3A, 0x2A, 0x7C, 0x22]"

definition regexMetaChars :: "jschar list" where
  "regexMetaChars = [0x5B, 0x5C, 0x5E, 0x24, 0x2E, 0x7C, 0x3F, 0x2A, 0x2B, 0x28, 0x29]"

definition escapeDisallowed :: "jsstring \<Rightarrow> jsstring" where
  "escapeDisallowed c = (if length c = 1 \<and> hd c \<in> set regexMetaChars then chBackslash # c else c)"

text \<open>
  The text matched by the pattern built from one code point: a backslash followed by a
  syntax character is an identity escape, every other code unit stands for itself
  (\<open>]\<close>, \<open>{\<close> and \<open>}\<close>, which the source does not escape, are literal when they stand
  alone).
\<close>

definition patternLiteral :: "jsstring \<Rightarrow> jsstring" where
  "patternLiteral p = (case p of [b, x] \<Rightarrow> if b = chBackslash then [x] else p | _ \<Rightarrow> p)"

definition stripDisallowed :: "jsstring \<Rightarrow> jsstring \<Rightarrow> jsstring" where
  "stripDisallowed name c = removeAllLit (patternLiteral (escapeDisallowed c)) name"

definition generateValidFileName :: "jsstring option \<Rightarrow> jsstring option \<Rightarrow> jsstring option" where
  "generateValidFileName title disallowedChars =
     (case title of
        None \<Rightarrow> None
      | Some t \<Rightarrow>
          if t = [] then Some t
          else
            let name = map (\<lambda>c. if c = chNbsp then chSpace else c)
                         (filter (\<lambda>c. c \<notin> set illegalChars) t)
            in (case disallowedChars of
                  None \<Rightarrow> Some name
                | Some d \<Rightarrow> Some (foldl stripDisallowed name (codePoints d))))"

text \<open>
  A string of disallowed characters holds a surrogate pair when a high surrogate is
  directly followed by a low surrogate: a character outside the Basic Multilingual Plane.
\<close>

fun hasSurrogatePair :: "jsstring \<Rightarrow> bool" where
  "hasSurrogatePair (a # b # cs) =
     ((isHighSurrogate a \<and> isLowSurrogate b) \<or> hasSurrogatePair (b # cs))"
| "hasSurrogatePair _ = False"

text \<open>
  A string is well-formed UTF-16 when every high surrogate is directly followed by a low
  surrogate and no low surrogate stands alone; such a string is the concatenation of its
  code points, each one code unit, or a high surrogate followed by a low one.
\<close>

fun wellFormed :: "jsstring \<Rightarrow> bool" where
  "wellFormed [] = True"
| "wellFormed [a] = (\<not> isHighSurrogate a \<and> \<not> isLowSurrogate a)"
| "wellFormed (a # b # cs) =
     (if isHighSurrogate a then isLowSurrogate b \<and> wellFormed cs
      else \<not> isLowSurrogate a \<and> wellFormed (b # cs))"

definition validCodePoint :: "jsstring \<Rightarrow> bool" where
  "validCodePoint c =
     (case c of
        [u] \<Rightarrow> \<not> isHighSurrogate u \<and> \<not> isLowSurrogate u
      | [h, l] \<Rightarrow> isHighSurrogate h \<and> isLowSurrogate l
      | _ \<Rightarrow> False)"

text \<open>
  What generateValidFileName does to a name given as a list of code points: drop the
  illegal ones, turn the non-breaking space into a space, drop the disallowed ones.
  It is the view of the function the proof of idempotence on well-formed strings uses.
\<close>

definition sanitizeCodePoints :: "jsstring list \<Rightarrow> jsstring list \<Rightarrow> jsstring list" where
  "sanitizeCodePoints dcps cps =
     filter (\<lambda>x. x \<notin> set dcps)
       (map (map (\<lambda>c. if c = chNbsp then chSpace else c))
          (filter (\<lambda>x. \<forall>u\<in>set x. u \<notin> set illegalChars) cps))"


section \<open>Template engine: textReplace\<close>

text \<open>
  The document record is a plain object: the list of its own properties in the order
  \<open>for (const key in article)\<close> visits them. A property holds \<open>null\<close> or \<open>undefined\<close>
  (\<open>JNull\<close>), a string, a number, an array of strings (the keywords) or an object (the
  math mapping).
\<close>

datatype jsval = JNull | JStr jsstring | JNum nat | JArr "jsstring list" | JObj

type_synonym article = "(jsstring \<times> jsval) list"

text \<open>\<^verbatim>\<open>(article[key] || '') + ''\<close>\<close>

definition fieldString :: "jsval \<Rightarrow> jsstring" where
  "fieldString v =
     (case v of
        JNull \<Rightarrow> []
      | JStr s \<Rightarrow> s
      | JNum n \<Rightarrow> (if n = 0 then [] else showNat n)
      | JArr xs \<Rightarrow> joinWith (js '','') xs
      | JObj \<Rightarrow> js ''[object Object]'')"

text \<open>
  \<^verbatim>\<open>s.replace(/ /g, '-').toLowerCase()\<close>, \<^verbatim>\<open>s.replace(/ /g, '_').toLowerCase()\<close>,
  \<^verbatim>\<open>s.replace(/ ./g, (str) => str.trim().toUpperCase())\<close> and
  \<^verbatim>\<open>.replace(/^./, (str) => str.toLowerCase())\<close>.
\<close>

definition kebabCase :: "platform \<Rightarrow> jsstring \<Rightarrow> jsstring" where
  "kebabCase P s = toLowerCase P (map (\<lambda>c. if c = chSpace then 0x2D else c) s)"

definition snakeCase :: "platform \<Rightarrow> jsstring \<Rightarrow> jsstring" where
  "snakeCase P s = toLowerCase P (map (\<lambda>c. if c = chSpace then 0x5F else c) s)"

fun joinWords :: "platform \<Rightarrow> jsstring \<Rightarrow> jsstring" where
  "joinWords P (a # b # cs) =
     (if a = chSpace \<and> \<not> isLineTerminator b
      then toUpperCase P (if isWhiteSpace b then [] else [b]) @ joinWords P cs
      else a # joinWords P (b # cs))"
| "joinWords P cs = cs"

definition mapFirstChar :: "(jsstring \<Rightarrow> jsstring) \<Rightarrow> jsstring \<Rightarrow> jsstring" where
  "mapFirstChar f s =
     (case s of [] \<Rightarrow> [] | c # cs \<Rightarrow> if isLineTerminator c then s else f [c] @ cs)"

definition camelCase :: "platform \<Rightarrow> jsstring \<Rightarrow> jsstring" where
  "camelCase P s = mapFirstChar (toLowerCase P) (joinWords P s)"

definition pascalCase :: "platform \<Rightarrow> jsstring \<Rightarrow> jsstring" where
  "pascalCase P s = mapFirstChar (toUpperCase P) (joinWords P s)"

text \<open>One round of the loop over the keys of the record.\<close>

definition replaceField ::
  "platform \<Rightarrow> jsstring option \<Rightarrow> jsstring \<Rightarrow> jsstring \<times> jsval \<Rightarrow> jserror + jsstring" where
  "replaceField P disallowedChars string kv =
     (let key = fst kv in
      if key = js ''content'' then Inr string
      else
        let s0 = fieldString (snd kv);
            s = (if s0 \<noteq> [] \<and> disallowedChars \<noteq> None \<and> disallowedChars \<noteq> Some []
                 then (case generateValidFileName (Some s0) disallowedChars of
                         Some r \<Rightarrow> r | None \<Rightarrow> s0)
                 else s0)
        in bindE (regexpReplaceE P (chLBrace # key @ js ''}'') string s) (\<lambda>s1.
           bindE (regexpReplaceE P (chLBrace # key @ js '':kebab}'') s1 (kebabCase P s)) (\<lambda>s2.
           bindE (regexpReplaceE P (chLBrace # key @ js '':snake}'') s2 (snakeCase P s)) (\<lambda>s3.
           bindE (regexpReplaceE P (chLBrace # key @ js '':camel}'') s3 (camelCase P s)) (\<lambda>s4.
           regexpReplaceE P (chLBrace # key @ js '':pascal}'') s4 (pascalCase P s))))))"

fun replaceFields ::
  "platform \<Rightarrow> jsstring option \<Rightarrow> jsstring \<Rightarrow> article \<Rightarrow> jserror + jsstring" where
  "replaceFields P disallowedChars string [] = Inr string"
| "replaceFields P disallowedChars string (kv # rest) =
     bindE (replaceField P disallowedChars string kv)
       (\<lambda>s. replaceFields P disallowedChars s rest)"

text \<open>
  A lazy \<open>.*?\<close> followed by \<open>}\<close>: the text up to the first closing brace, which must
  come before any line terminator, and the text after that brace.
\<close>

fun scanToClose :: "jsstring \<Rightarrow> (jsstring \<times> jsstring) option" where
  "scanToClose [] = None"
| "scanToClose (c # cs) =
     (if c = chRBrace then Some ([], cs)
      else if isLineTerminator c then None
      else (case scanToClose cs of None \<Rightarrow> None | Some (mid, rest) \<Rightarrow> Some (c # mid, rest)))"

lemma scanToClose_length: "scanToClose cs = Some (mid, rest) \<Longrightarrow> length rest < length cs"
  by (induction cs arbitrary: mid rest) (auto split: if_splits option.splits)

text \<open>
  The matches of \<^verbatim>\<open>/{date:(.+?)}/g\<close> from left to right, as the format and the whole
  matched text: after \<open>{date:\<close> comes one character that is not a line terminator, then
  the shortest text that reaches a closing brace.
\<close>

definition dateTail :: "jsstring \<Rightarrow> (jsstring \<times> jsstring) option" where
  "dateTail s =
     (case s of
        [] \<Rightarrow> None
      | c # cs \<Rightarrow>
          if isLineTerminator c then None
          else (case scanToClose cs of None \<Rightarrow> None | Some (mid, rest) \<Rightarrow> Some (c # mid, rest)))"

lemma dateTail_length: "dateTail s = Some (fmt, rest) \<Longrightarrow> length rest < length s"
  by (auto simp: dateTail_def split: list.splits if_splits option.splits
      dest: scanToClose_length)

function dateMatches :: "jsstring \<Rightarrow> jsstring list" where
  "dateMatches [] = []"
| "dateMatches (c # cs) =
     (if prefix (js ''{date:'') (c # cs)
      then (case dateTail (drop 6 (c # cs)) of
              None \<Rightarrow> dateMatches cs
            | Some (fmt, rest) \<Rightarrow> (js ''{date:'' @ fmt @ js ''}'') # dateMatches rest)
      else dateMatches cs)"
  by pat_completeness auto
termination
proof (relation "measure length")
  fix c cs x2 x y
  assume "dateTail (drop 6 (c # cs)) = Some x2" and "(x, y) = x2"
  then have "length y < length (drop 6 (c # cs))"
    using dateTail_length[of "drop 6 (c # cs)" x y] by simp
  then show "(y, c # cs) \<in> measure length" by simp
qed auto

definition replaceDates :: "platform \<Rightarrow> jsstring \<Rightarrow> jsstring" where
  "replaceDates P string =
     foldl (\<lambda>str m. replaceAllStr str m (momentFormat P (substring m 6 (int (length m) - 1))))
       string (dateMatches string)"

text \<open>
  The matches of \<^verbatim>\<open>/{keywords:?(.*)?}/g\<close>: the greedy \<open>.*\<close> runs to the last closing
  brace before the next line terminator.
\<close>

fun greedyClose :: "jsstring \<Rightarrow> (jsstring \<times> jsstring) option" where
  "greedyClose [] = None"
| "greedyClose (c # cs) =
     (if isLineTerminator c then None
      else (case greedyClose cs of
              Some (mid, rest) \<Rightarrow> Some (c # mid, rest)
            | None \<Rightarrow> if c = chRBrace then Some ([], cs) else None))"

lemma greedyClose_length: "greedyClose cs = Some (mid, rest) \<Longrightarrow> length rest < length cs"
  by (induction cs arbitrary: mid rest) (auto split: if_splits option.splits)

function keywordMatches :: "jsstring \<Rightarrow> jsstring list" where
  "keywordMatches [] = []"
| "keywordMatches (c # cs) =
     (if prefix (js ''{keywords'') (c # cs)
      then (case greedyClose (drop 9 (c # cs)) of
              None \<Rightarrow> keywordMatches cs
            | Some (mid, rest) \<Rightarrow> (js ''{keywords'' @ mid @ js ''}'') # keywordMatches rest)
      else keywordMatches cs)"
  by pat_completeness auto
termination
proof (relation "measure length")
  fix c cs x2 x y
  assume "greedyClose (drop 9 (c # cs)) = Some x2" and "(x, y) = x2"
  then have "length y < length (drop 9 (c # cs))"
    using greedyClose_length[of "drop 9 (c # cs)" x y] by simp
  then show "(y, c # cs) \<in> measure length" by simp
qed auto

text \<open>
  \<^verbatim>\<open>(article.keywords || []).join(seperator)\<close>: a value that is neither falsy nor an array
  has no \<open>join\<close>, and the call throws a TypeError.
\<close>

definition keywordList :: "article \<Rightarrow> jserror + jsstring list" where
  "keywordList a =
     (case map_of a (js ''keywords'') of
        None \<Rightarrow> Inr []
      | Some JNull \<Rightarrow> Inr []
      | Some (JArr xs) \<Rightarrow> Inr xs
      | Some (JStr s) \<Rightarrow> (if s = [] then Inr [] else Inl TypeError)
      | Some (JNum n) \<Rightarrow> (if n = 0 then Inr [] else Inl TypeError)
      | Some JObj \<Rightarrow> Inl TypeError)"

definition replaceKeyword :: "platform \<Rightarrow> article \<Rightarrow> jsstring \<Rightarrow> jsstring \<Rightarrow> jserror + jsstring" where
  "replaceKeyword P a string m =
     (let sep0 = substring m 10 (int (length m) - 1);
          seperator = (case jsonUnescape P sep0 of Some r \<Rightarrow> r | None \<Rightarrow> sep0)
      in bindE (keywordList a) (\<lambda>kws.
         regexpReplaceE P
           (concat (map (\<lambda>c. if c = chBackslash then [chBackslash, chBackslash] else [c]) m))
           string (joinWith seperator kws)))"

fun replaceKeywordsLoop ::
  "platform \<Rightarrow> article \<Rightarrow> jsstring \<Rightarrow> jsstring list \<Rightarrow> jserror + jsstring" where
  "replaceKeywordsLoop P a string [] = Inr string"
| "replaceKeywordsLoop P a string (m # ms) =
     bindE (replaceKeyword P a string m) (\<lambda>s. replaceKeywordsLoop P a s ms)"

definition replaceKeywords :: "platform \<Rightarrow> article \<Rightarrow> jsstring \<Rightarrow> jserror + jsstring" where
  "replaceKeywords P a string = replaceKeywordsLoop P a string (keywordMatches string)"

text \<open>\<^verbatim>\<open>string.replace(/{(.*?)}/g, '')\<close>: what is left in curly braces is removed.\<close>

function stripBraces :: "jsstring \<Rightarrow> jsstring" where
  "stripBraces [] = []"
| "stripBraces (c # cs) =
     (if c = chLBrace
      then (case scanToClose cs of
              None \<Rightarrow> c # stripBraces cs
            | Some (mid, rest) \<Rightarrow> stripBraces rest)
      else c # stripBraces cs)"
  by pat_completeness auto
termination
proof (relation "measure length")
  fix c cs x2 x y
  assume "scanToClose cs = Some x2" and "(x, y) = x2"
  then have "length y < length cs"
    using scanToClose_length[of cs x y] by simp
  then show "(y, c # cs) \<in> measure length" by simp
qed auto

text \<open>
  \<^verbatim>\<open>
  function textReplace(string, article, disallowedChars = null) {
    for (const key in article) {
      if (article.hasOwnProperty(key) && key != "content") {
        let s = (article[key] || '') + '';
        if (s && disallowedChars) s = generateValidFileName(s, disallowedChars);
        string = string.replace(new RegExp('{' + key + '}', 'g'), s)
          .replace(new RegExp('{' + key + ':kebab}', 'g'), s.replace(/ /g, '-').toLowerCase())
          .replace(new RegExp('{' + key + ':snake}', 'g'), s.replace(/ /g, '_').toLowerCase())
          .replace(new RegExp('{' + key + ':camel}', 'g'), ...)
          .replace(new RegExp('{' + key + ':pascal}', 'g'), ...);
      }
    }
    const now = new Date();
    const dateRegex = /{date:(.+?)}/g;
    const matches = string.match(dateRegex);
    if (matches && matches.forEach) {
      matches.forEach(match => {
        const format = match.substring(6, match.length - 1);
        const dateString = moment(now).format(format);
        string = string.replaceAll(match, dateString);
      });
    }
    const keywordRegex = /{keywords:?(.*)?}/g;
    const keywordMatches = string.match(keywordRegex);
    if (keywordMatches && keywordMatches.forEach) {
      keywordMatches.forEach(match => {
        let seperator = match.substring(10, match.length - 1);
        try {
          seperator = JSON.parse(JSON.stringify(seperator).replace(/\\\\/g, '\\'));
        }
        catch { }
        const keywordsString = (article.keywords || []).join(seperator);
        string = string.replace(new RegExp(match.replace(/\\/g, '\\\\'), 'g'), keywordsString);
      });
    }
    const defaultRegex = /{(.*?)}/g;
    string = string.replace(defaultRegex, '');
    return string;
  }
  \<close>
\<close>

definition textReplace ::
  "platform \<Rightarrow> jsstring \<Rightarrow> article \<Rightarrow> jsstring option \<Rightarrow> jserror + jsstring" where
  "textReplace P string a disallowedChars =
     bindE (replaceFields P disallowedChars string a) (\<lambda>s1.
     bindE (replaceKeywords P a (replaceDates P s1)) (\<lambda>s3.
     Inr (stripBraces s3)))"

text \<open>
  An unresolved token: an opening brace, then characters that are not line terminators,
  then a closing brace.
\<close>

fun closesOnLine :: "jsstring \<Rightarrow> bool" where
  "closesOnLine [] = False"
| "closesOnLine (c # cs) = (c = chRBrace \<or> (\<not> isLineTerminator c \<and> closesOnLine cs))"

fun hasToken :: "jsstring \<Rightarrow> bool" where
  "hasToken [] = False"
| "hasToken (c # cs) = ((c = chLBrace \<and> closesOnLine cs) \<or> hasToken cs)"

text \<open>
  A token whatever is between its braces: an opening brace and a closing brace anywhere
  after it, on the same line or on a later one.
\<close>

fun hasBracePair :: "jsstring \<Rightarrow> bool" where
  "hasBracePair [] = False"
| "hasBracePair (c # cs) = ((c = chLBrace \<and> chRBrace \<in> set cs) \<or> hasBracePair cs)"

text \<open>
  A platform for evaluating examples. It does what the engine does on the inputs of
  the examples: a pattern without syntax characters matches its own text, the letters
  are ASCII, the separator has no escape sequence, and the year is 2024.
\<close>

definition asciiLower :: "jsstring \<Rightarrow> jsstring" where
  "asciiLower s = map (\<lambda>c. if 0x41 \<le> c \<and> c \<le> 0x5A then c + 0x20 else c) s"

definition asciiUpper :: "jsstring \<Rightarrow> jsstring" where
  "asciiUpper s = map (\<lambda>c. if 0x61 \<le> c \<and> c \<le> 0x7A then c - 0x20 else c) s"

text \<open>
  The example URL parser knows \<open>http://host/path\<close> and \<open>https://host/path\<close> with a path
  that is not empty, and a query and a fragment after it: the origin ends before the
  first slash of the path, the path before the first \<open>?\<close> or \<open>#\<close>.
\<close>

definition exampleParseURL :: "jsstring \<Rightarrow> url option" where
  "exampleParseURL s =
     (let scheme = (if prefix (js ''https://'') s then js ''https://''
                    else if prefix (js ''http://'') s then js ''http://'' else []);
          rest = drop (length scheme) s;
          host = takeWhile (\<lambda>c. c \<noteq> chSlash \<and> c \<noteq> 0x3F \<and> c \<noteq> 0x23) rest;
          tail = drop (length host) rest
      in if scheme = [] \<or> host = [] \<or> \<not> prefix [chSlash] tail then None
         else Some \<lparr>origin = scheme @ host,
                    pathname = takeWhile (\<lambda>c. c \<noteq> 0x3F \<and> c \<noteq> 0x23) tail,
                    href = s\<rparr>)"

text \<open>
  The properties of \<open>Object.prototype\<close> as the V8 engine prints them: \<open>constructor\<close> is the
  function \<open>Object\<close>, \<open>__proto__\<close> gives \<open>Object.prototype\<close> itself, the others are functions
  of their own name.
\<close>

definition exampleInheritedText :: "jsstring \<Rightarrow> jsstring option" where
  "exampleInheritedText k =
     (if k = js ''__proto__'' then Some (js ''[object Object]'')
      else if k = js ''constructor'' then Some (js ''function Object() { [native code] }'')
      else if k \<in> set [js ''__defineGetter__'', js ''__defineSetter__'', js ''hasOwnProperty'',
                        js ''__lookupGetter__'', js ''__lookupSetter__'', js ''isPrototypeOf'',
                        js ''propertyIsEnumerable'', js ''toString'', js ''valueOf'',
                        js ''toLocaleString'']
      then Some (js ''function '' @ k @ js ''() { [native code] }'')
      else None)"

definition examplePlatform :: platform where
  "examplePlatform =
     \<lparr>regexpReplace = (\<lambda>src subject replacement. Some (replaceAllStr subject src replacement)),
      momentFormat = (\<lambda>f. if f = js ''YYYY'' then js ''2024'' else f),
      toLowerCase = asciiLower,
      toUpperCase = asciiUpper,
      jsonUnescape = Some,
      parseURL = exampleParseURL,
      inheritedText = exampleInheritedText\<rparr>"

section \<open>URI resolution: validateUri\<close>



section \<open>Code blocks\<close>

text \<open>
  \<^verbatim>\<open>function repeat(character, count) { return Array(count + 1).join(character); }\<close>
  The character is \<open>options.fence.charAt(0)\<close>: a string of one code unit, or the empty
  string when the fence option is empty.
\<close>

definition repeat :: "jsstring \<Rightarrow> nat \<Rightarrow> jsstring" where
  "repeat character count = concat (replicate count character)"

text \<open>
  The replacement of the rule \<open>fencedCodeBlock\<close>, which handles a \<open>pre\<close> element whose
  first child is a \<open>code\<close> element. \<open>language\<close> and \<open>code\<close> are what processCodeBlock
  returns for the \<open>code\<close> element.
  \<^verbatim>\<open>
  replacement: function (content, node, options) {
    const codeNode = node.firstChild;
    const processedCode = processCodeBlock(codeNode, options);
    const fenceChar = options.fence.charAt(0);
    const fenceSize = 3;
    const fence = repeat(fenceChar, fenceSize);
    return ('\n\n' + fence + processedCode.language + '\n' + processedCode.code +
            '\n' + fence + '\n\n')
  }
  \<close>
\<close>

definition fencedCodeBlock :: "jsstring \<Rightarrow> jsstring \<Rightarrow> jsstring \<Rightarrow> jsstring" where
  "fencedCodeBlock fenceOption language code =
     (let fenceChar = take 1 fenceOption;
          fenceSize = 3;
          fence = repeat fenceChar fenceSize
      in [chNewline, chNewline] @ fence @ language @ [chNewline] @ code
         @ [chNewline] @ fence @ [chNewline, chNewline])"

text \<open>
  convertToFencedCodeBlock, which the rule \<open>pre\<close> calls for a \<open>pre\<close> element without a
  \<open>code\<close> child. \<open>language\<close> and \<open>code\<close> are read from the element.
  \<^verbatim>\<open>
  var fenceChar = options.fence.charAt(0);
  var fenceSize = 3;
  var fenceInCodeRegex = new RegExp('^' + fenceChar + '{3,}', 'gm');
  var match;
  while ((match = fenceInCodeRegex.exec(code))) {
    if (match[0].length >= fenceSize) { fenceSize = match[0].length + 1; }
  }
  var fence = repeat(fenceChar, fenceSize);
  return ('\n\n' + fence + language + '\n' + code.replace(/\n$/, '') + '\n' + fence + '\n\n')
  \<close>
  The fence character is a backtick or a tilde. With the flag \<open>m\<close> the pattern matches at
  the start of every line, and a match is the whole run of fence characters there when
  the run has three or more.
\<close>

fun splitLines :: "jsstring \<Rightarrow> jsstring list" where
  "splitLines [] = [[]]"
| "splitLines (c # cs) =
     (if isLineTerminator c then [] # splitLines cs
      else (case splitLines cs of [] \<Rightarrow> [[c]] | l # ls \<Rightarrow> (c # l) # ls))"

definition fenceMatches :: "jschar \<Rightarrow> jsstring \<Rightarrow> nat list" where
  "fenceMatches fenceChar code =
     filter (\<lambda>n. 3 \<le> n) (map (\<lambda>l. length (takeWhile (\<lambda>c. c = fenceChar) l)) (splitLines code))"

definition fenceSizeFor :: "jschar \<Rightarrow> jsstring \<Rightarrow> nat" where
  "fenceSizeFor fenceChar code =
     foldl (\<lambda>fenceSize n. if n \<ge> fenceSize then n + 1 else fenceSize) 3 (fenceMatches fenceChar code)"

definition dropFinalNewline :: "jsstring \<Rightarrow> jsstring" where
  "dropFinalNewline code = (if code \<noteq> [] \<and> last code = chNewline then butlast code else code)"

definition convertToFencedCodeBlock :: "jschar \<Rightarrow> jsstring \<Rightarrow> jsstring \<Rightarrow> jsstring" where
  "convertToFencedCodeBlock fenceChar language code =
     (let fence = repeat [fenceChar] (fenceSizeFor fenceChar code)
      in [chNewline, chNewline] @ fence @ language @ [chNewline] @ dropFinalNewline code
         @ [chNewline] @ fence @ [chNewline, chNewline])"

section \<open>The options and the characters removed from the output\<close>

text \<open>
  The options that the modelled functions read.
\<close>

record tableFormatting =
  stripLinks :: bool
  stripFormatting :: bool
  prettyPrint :: bool
  centerText :: bool

record options =
  includeTemplate :: bool
  frontmatter :: jsstring
  backmatter :: jsstring
  orgPreambleTemplate :: jsstring
  downloadImages :: bool
  downloadMode :: jsstring
  outputFormat :: jsstring
  imagePrefix :: jsstring
  disallowedChars :: "jsstring option"
  optTitle :: jsstring
  tableFormat :: "tableFormatting option"

text \<open>
  The characters removed from the output:
  \<^verbatim>\<open>/[\u0000-\u0009\u000b\u000c\u000e-\u001f\u007f-\u009f\u00ad\u061c\u200b-\u200f\u2028\u2029\ufeff\ufff9-\ufffc]/g\<close>
\<close>

definition isSpecialChar :: "jschar \<Rightarrow> bool" where
  "isSpecialChar c =
     (c \<le> 0x09 \<or> c = 0x0B \<or> c = 0x0C \<or> (0x0E \<le> c \<and> c \<le> 0x1F) \<or> (0x7F \<le> c \<and> c \<le> 0x9F)
      \<or> c = 0xAD \<or> c = 0x061C \<or> (0x200B \<le> c \<and> c \<le> 0x200F) \<or> c = 0x2028 \<or> c = 0x2029
      \<or> c = 0xFEFF \<or> (0xFFF9 \<le> c \<and> c \<le> 0xFFFC))"

definition stripSpecialChars :: "jsstring \<Rightarrow> jsstring" where
  "stripSpecialChars s = filter (\<lambda>c. \<not> isSpecialChar c) s"

section \<open>Download tracking\<close>

text \<open>
  The three maps of the service worker, and the list of the \<open>cleanup-blob-url\<close> messages
  it has sent. A download identifier is a number.
  \<^verbatim>\<open>
  const activeDownloads = new Map();
  const markSnipDownloads = new Map(); // downloadId -> { filename, imageList }
  const markSnipUrls = new Map(); // url -> { filename, expectedFilename }
  \<close>
\<close>

record downloadInfo =
  infoFilename :: jsstring
  infoIsImage :: bool
  infoIsMarkdown :: bool
  infoUrl :: "jsstring option"

record tracking =
  activeDownloads :: "nat \<rightharpoonup> jsstring"
  markSnipDownloads :: "nat \<rightharpoonup> downloadInfo"
  markSnipUrls :: "jsstring \<rightharpoonup> downloadInfo"
  cleanupMessages :: "jsstring list"

definition emptyTracking :: tracking where
  "emptyTracking =
     \<lparr>activeDownloads = Map.empty, markSnipDownloads = Map.empty, markSnipUrls = Map.empty,
      cleanupMessages = []\<rparr>"

datatype downloadState = InProgress | Complete | Interrupted

record downloadDelta =
  deltaId :: nat
  deltaState :: "downloadState option"

text \<open>
  \<^verbatim>\<open>
  function handleDownloadChange(delta) {
    if (activeDownloads.has(delta.id)) {
      if (delta.state && delta.state.current === "complete") {
        const url = activeDownloads.get(delta.id);
        if (url.startsWith('blob:chrome-extension://')) {
          browser.runtime.sendMessage({ type: 'cleanup-blob-url', url: url }).catch(...);
        }
        activeDownloads.delete(delta.id);
        markSnipDownloads.delete(delta.id); // Clean up filename tracking
      } else if (delta.state && delta.state.current === "interrupted") {
        const url = activeDownloads.get(delta.id);
        if (url.startsWith('blob:chrome-extension://')) {
          browser.runtime.sendMessage({ type: 'cleanup-blob-url', url: url }).catch(...);
        }
        activeDownloads.delete(delta.id);
        markSnipDownloads.delete(delta.id); // Clean up filename tracking
      }
    }
    // Also clean up any remaining URL tracking
    if (markSnipDownloads.has(delta.id)) {
      const downloadInfo = markSnipDownloads.get(delta.id);
      if (downloadInfo.url && markSnipUrls.has(downloadInfo.url)) {
        markSnipUrls.delete(downloadInfo.url);
      }
    }
  }
  \<close>
\<close>

definition releaseDownload :: "nat \<Rightarrow> jsstring \<Rightarrow> tracking \<Rightarrow> tracking" where
  "releaseDownload i u t =
     t\<lparr>cleanupMessages :=
         (if prefix (js ''blob:chrome-extension://'') u then cleanupMessages t @ [u]
          else cleanupMessages t),
       activeDownloads := (activeDownloads t)(i := None),
       markSnipDownloads := (markSnipDownloads t)(i := None)\<rparr>"

definition handleDownloadChange :: "downloadDelta \<Rightarrow> tracking \<Rightarrow> tracking" where
  "handleDownloadChange delta t =
     (let t1 = (case activeDownloads t (deltaId delta) of
                  None \<Rightarrow> t
                | Some u \<Rightarrow>
                    if deltaState delta = Some Complete then releaseDownload (deltaId delta) u t
                    else if deltaState delta = Some Interrupted then releaseDownload (deltaId delta) u t
                    else t)
      in (case markSnipDownloads t1 (deltaId delta) of
            None \<Rightarrow> t1
          | Some info \<Rightarrow>
              (case infoUrl info of
                 None \<Rightarrow> t1
               | Some u \<Rightarrow>
                   if u \<noteq> [] \<and> markSnipUrls t1 u \<noteq> None
                   then t1\<lparr>markSnipUrls := (markSnipUrls t1)(u := None)\<rparr>
                   else t1)))"

text \<open>\<open>s.lastIndexOf(c)\<close> and \<open>s.indexOf(c)\<close> for one code unit: -1 when it does not occur.\<close>

definition lastIndexOf :: "jschar \<Rightarrow> jsstring \<Rightarrow> int" where
  "lastIndexOf c s =
     (if c \<in> set s then int (length s) - 1 - int (length (takeWhile (\<lambda>x. x \<noteq> c) (rev s)))
      else - 1)"


text \<open>
  handleImageDownloads. \<open>download u f\<close> is what \<open>browser.downloads.download\<close> resolves
  to for the URL \<open>u\<close> and the file name \<open>f\<close>: the identifier, or \<open>None\<close> when the call
  rejects (the error is caught and the loop goes on).
  \<^verbatim>\<open>
  const destPath = mdClipsFolder + title.substring(0, title.lastIndexOf('/'));
  const adjustedDestPath = destPath && !destPath.endsWith('/') ? destPath + '/' : destPath;
  for (const [src, filename] of Object.entries(imageList)) {
    try {
      const fullImagePath = adjustedDestPath ? adjustedDestPath + filename : filename;
      if (src.startsWith('blob:')) {
        markSnipUrls.set(src, { filename: fullImagePath, isImage: true });
      }
      const imgId = await browser.downloads.download({ url: src, filename: fullImagePath, saveAs: false });
      activeDownloads.set(imgId, src);
      if (!src.startsWith('blob:')) {
        markSnipDownloads.set(imgId, { filename: fullImagePath, isImage: true, url: src });
      }
    } catch (imgErr) { ... }
  }
  \<close>
\<close>

definition imageDestPath :: "jsstring \<Rightarrow> jsstring \<Rightarrow> jsstring" where
  "imageDestPath mdClipsFolder title =
     (let destPath = mdClipsFolder @ substring title 0 (lastIndexOf chSlash title)
      in if destPath \<noteq> [] \<and> \<not> suffix [chSlash] destPath then destPath @ [chSlash]
         else destPath)"

definition downloadImage ::
  "(jsstring \<Rightarrow> jsstring \<Rightarrow> nat option) \<Rightarrow> jsstring \<Rightarrow> tracking \<Rightarrow> jsstring \<times> jsstring \<Rightarrow> tracking" where
  "downloadImage download adjustedDestPath t entry =
     (let src = fst entry;
          fullImagePath = (if adjustedDestPath \<noteq> [] then adjustedDestPath @ snd entry
                           else snd entry);
          t1 = (if prefix (js ''blob:'') src
                then t\<lparr>markSnipUrls := (markSnipUrls t)(src \<mapsto>
                         \<lparr>infoFilename = fullImagePath, infoIsImage = True,
                          infoIsMarkdown = False, infoUrl = None\<rparr>)\<rparr>
                else t)
      in (case download src fullImagePath of
            None \<Rightarrow> t1
          | Some imgId \<Rightarrow>
              (let t2 = t1\<lparr>activeDownloads := (activeDownloads t1)(imgId \<mapsto> src)\<rparr>
               in if \<not> prefix (js ''blob:'') src
                  then t2\<lparr>markSnipDownloads := (markSnipDownloads t2)(imgId \<mapsto>
                           \<lparr>infoFilename = fullImagePath, infoIsImage = True,
                            infoIsMarkdown = False, infoUrl = Some src\<rparr>)\<rparr>
                  else t2)))"

definition handleImageDownloads ::
  "(jsstring \<Rightarrow> jsstring \<Rightarrow> nat option) \<Rightarrow> jsstring \<Rightarrow> jsstring \<Rightarrow> (jsstring \<times> jsstring) list
     \<Rightarrow> tracking \<Rightarrow> tracking" where
  "handleImageDownloads download mdClipsFolder title imageList t =
     foldl (downloadImage download (imageDestPath mdClipsFolder title)) t imageList"

section \<open>Table reconstruction\<close>

text \<open>
  A cell of the table, as the rule reads it: \<open>rendered\<close> is what
  \<open>cellTurndownService.turndown(cellContainer.innerHTML)\<close> returns for it (the cell
  converter is the external engine), \<open>colspanAttr\<close> and \<open>rowspanAttr\<close> are
  \<open>parseInt(cell.getAttribute(...))\<close>, \<open>None\<close> for NaN (no attribute, or no number in it).
  A row is the list of its children. The table element gives the first row of its
  \<open>thead\<close>, the children of its \<open>tbody\<close>, and all its \<open>tr\<close> elements.
  \<^verbatim>\<open>
  const thead = node.querySelector('thead');
  const tbody = node.querySelector('tbody');
  const headerRow = thead?.querySelector('tr');
  const rows = headerRow ?
    [headerRow, ...(tbody ? Array.from(tbody.children) : [])] :
    (tbody ? Array.from(tbody.children) : Array.from(node.querySelectorAll('tr')));
  \<close>
\<close>

record cell =
  rendered :: jsstring
  colspanAttr :: "int option"
  rowspanAttr :: "int option"

type_synonym row = "cell list"

record tableNode =
  theadRow :: "row option"
  tbodyChildren :: "row list option"
  allRows :: "row list"

definition tableRows :: "tableNode \<Rightarrow> row list" where
  "tableRows node =
     (case theadRow node of
        Some headerRow \<Rightarrow> headerRow # (case tbodyChildren node of Some b \<Rightarrow> b | None \<Rightarrow> [])
      | None \<Rightarrow> (case tbodyChildren node of Some b \<Rightarrow> b | None \<Rightarrow> allRows node))"

text \<open>\<^verbatim>\<open>parseInt(cell.getAttribute('colspan')) || 1\<close>: NaN and 0 give 1.\<close>

definition spanOf :: "int option \<Rightarrow> int" where
  "spanOf a = (case a of None \<Rightarrow> 1 | Some n \<Rightarrow> if n = 0 then 1 else n)"

text \<open>
  A JavaScript array that may have holes is a list of options. Writing past the end
  leaves holes between the old end and the new element; reading a hole or past the end
  gives \<open>undefined\<close>.
\<close>

definition setAt :: "'a option list \<Rightarrow> nat \<Rightarrow> 'a \<Rightarrow> 'a option list" where
  "setAt xs i v =
     (if i < length xs then xs[i := Some v]
      else xs @ replicate (i - length xs) None @ [Some v])"

definition getAt :: "'a option list \<Rightarrow> nat \<Rightarrow> 'a option" where
  "getAt xs i = (if i < length xs then xs ! i else None)"

text \<open>
  The visible text of a cell: link and image syntax reduced to the label
  (\<^verbatim>\<open>.replace(/!?\[([^\]]*)\]\([^)]*\)/g, '$1')\<close>), then emphasis markers removed
  (\<^verbatim>\<open>.replace(/[*_~`]+(.*?)[*_~`]+/g, '$1')\<close>).
  \<open>linkAt s\<close> matches \<^verbatim>\<open>\[([^\]]*)\]\([^)]*\)\<close> at the start of \<open>s\<close>: the label and the
  text after the match.
\<close>

definition linkAt :: "jsstring \<Rightarrow> (jsstring \<times> jsstring) option" where
  "linkAt s =
     (case s of
        [] \<Rightarrow> None
      | c # cs \<Rightarrow>
          if c \<noteq> 0x5B then None
          else (case dropWhile (\<lambda>x. x \<noteq> 0x5D) cs of
                  b # q # r2 \<Rightarrow>
                    if q \<noteq> 0x28 then None
                    else (case dropWhile (\<lambda>x. x \<noteq> 0x29) r2 of
                            [] \<Rightarrow> None
                          | p # r4 \<Rightarrow> Some (takeWhile (\<lambda>x. x \<noteq> 0x5D) cs, r4))
                | _ \<Rightarrow> None))"

lemma linkAt_length: "linkAt s = Some (label, rest) \<Longrightarrow> length rest < length s"
proof -
  assume a: "linkAt s = Some (label, rest)"
  then obtain c cs where s: "s = c # cs" by (cases s) (auto simp: linkAt_def)
  from a s obtain b q r2 where d1: "dropWhile (\<lambda>x. x \<noteq> 0x5D) cs = b # q # r2"
    by (auto simp: linkAt_def split: if_splits list.splits)
  from a s d1 obtain p where d2: "dropWhile (\<lambda>x. x \<noteq> 0x29) r2 = p # rest"
    by (auto simp: linkAt_def split: if_splits list.splits)
  have "length (dropWhile (\<lambda>x. x \<noteq> 0x5D) cs) \<le> length cs" by (rule length_dropWhile_le)
  moreover have "length (dropWhile (\<lambda>x. x \<noteq> 0x29) r2) \<le> length r2" by (rule length_dropWhile_le)
  ultimately show ?thesis using s d1 d2 by simp
qed

function stripLinkSyntax :: "jsstring \<Rightarrow> jsstring" where
  "stripLinkSyntax [] = []"
| "stripLinkSyntax (c # cs) =
     (case (if c = 0x21 then linkAt cs else None) of
        Some (label, rest) \<Rightarrow> label @ stripLinkSyntax rest
      | None \<Rightarrow>
          (case linkAt (c # cs) of
             Some (label, rest) \<Rightarrow> label @ stripLinkSyntax rest
           | None \<Rightarrow> c # stripLinkSyntax cs))"
  by pat_completeness auto
termination
proof (relation "measure length")
  fix c :: jschar and cs :: jsstring and x2 x y
  assume "(if c = 0x21 then linkAt cs else None) = Some x2" and "(x, y) = x2"
  then have "linkAt cs = Some (x, y)" by (auto split: if_splits)
  then have "length y < length cs" by (rule linkAt_length)
  then show "(y, c # cs) \<in> measure length" by simp
next
  fix c :: jschar and cs :: jsstring and x2 x y
  assume "linkAt (c # cs) = Some x2" and "(x, y) = x2"
  then have "linkAt (c # cs) = Some (x, y)" by simp
  then have "length y < length (c # cs)" by (rule linkAt_length)
  then show "(y, c # cs) \<in> measure length" by simp
qed auto

definition isFormatChar :: "jschar \<Rightarrow> bool" where
  "isFormatChar c = (c = 0x2A \<or> c = 0x5F \<or> c = 0x7E \<or> c = 0x60)"

text \<open>
  The lazy \<open>.*?\<close> before the second run of markers: the text up to the next marker,
  which must come before any line terminator, and the text from that marker on.
\<close>

fun scanToFormat :: "jsstring \<Rightarrow> (jsstring \<times> jsstring) option" where
  "scanToFormat [] = None"
| "scanToFormat (c # cs) =
     (if isFormatChar c then Some ([], c # cs)
      else if isLineTerminator c then None
      else (case scanToFormat cs of None \<Rightarrow> None | Some (mid, rest) \<Rightarrow> Some (c # mid, rest)))"

lemma scanToFormat_length: "scanToFormat s = Some (mid, rest) \<Longrightarrow> length rest \<le> length s"
  by (induction s arbitrary: mid rest) (auto split: if_splits option.splits)

text \<open>
  At a marker, the first run of markers is taken whole when another marker follows on
  the line: the match runs to the end of that second run and is replaced by the text
  between the runs. When no marker follows, the first run gives its last marker to the
  second \<open>+\<close>: a run of two or more markers is removed, a single marker stays.
\<close>

function stripFormatSyntax :: "jsstring \<Rightarrow> jsstring" where
  "stripFormatSyntax [] = []"
| "stripFormatSyntax (c # cs) =
     (if isFormatChar c
      then (case scanToFormat (dropWhile isFormatChar cs) of
              Some (mid, rest) \<Rightarrow> mid @ stripFormatSyntax (dropWhile isFormatChar rest)
            | None \<Rightarrow>
                if length (takeWhile isFormatChar (c # cs)) \<ge> 2
                then stripFormatSyntax (dropWhile isFormatChar cs)
                else c # stripFormatSyntax cs)
      else c # stripFormatSyntax cs)"
  by pat_completeness auto
termination
proof (relation "measure length")
  fix c :: jschar and cs :: jsstring and x2 x y
  assume "scanToFormat (dropWhile isFormatChar cs) = Some x2" and "(x, y) = x2"
  then have "length y \<le> length (dropWhile isFormatChar cs)"
    using scanToFormat_length[of "dropWhile isFormatChar cs" x y] by simp
  moreover have "length (dropWhile isFormatChar y) \<le> length y" by (rule length_dropWhile_le)
  moreover have "length (dropWhile isFormatChar cs) \<le> length cs" by (rule length_dropWhile_le)
  ultimately show "(dropWhile isFormatChar y, c # cs) \<in> measure length" by simp
next
  fix c :: jschar and cs :: jsstring
  have "length (dropWhile isFormatChar cs) \<le> length cs" by (rule length_dropWhile_le)
  then show "(dropWhile isFormatChar cs, c # cs) \<in> measure length" by simp
qed auto

definition visibleText :: "jsstring \<Rightarrow> jsstring" where
  "visibleText s = stripFormatSyntax (stripLinkSyntax s)"

definition simplifiedContent :: "jsstring \<Rightarrow> jsstring" where
  "simplifiedContent s = visibleText (map (\<lambda>c. if c = chNewline then chSpace else c) s)"

text \<open>
  The matrix and the column widths, and the body of the two loops over the span of a
  cell:
  \<^verbatim>\<open>
  let tableMatrix = Array.from({ length: rows.length }, () => []);
  let columnWidths = [];
  rows.forEach((row, rowIndex) => {
    Array.from(row.children).forEach(cell => {
      ...
      const colspan = parseInt(cell.getAttribute('colspan')) || 1;
      const rowspan = parseInt(cell.getAttribute('rowspan')) || 1;
      for (let i = 0; i < rowspan; i++) {
        for (let j = 0; j < colspan; j++) {
          const targetRow = rowIndex + i;
          if (!tableMatrix[targetRow]) { tableMatrix[targetRow] = []; }
          const targetCol = tableMatrix[targetRow].length;
          tableMatrix[targetRow][targetCol] = processedContent;
          const simplifiedContent = processedContent.replace(/\n/g, ' ')...;
          const visibleLength = simplifiedContent.length;
          if (!columnWidths[targetCol] || visibleLength > columnWidths[targetCol]) {
            columnWidths[targetCol] = visibleLength;
          }
        }
      }
    });
  });
  \<close>
\<close>

type_synonym tableMatrix = "jsstring list option list"
type_synonym tableState = "tableMatrix \<times> nat option list"

definition matrixRow :: "tableMatrix \<Rightarrow> nat \<Rightarrow> jsstring list" where
  "matrixRow m r = (case getAt m r of None \<Rightarrow> [] | Some cells \<Rightarrow> cells)"

definition placeOne :: "jsstring \<Rightarrow> nat \<Rightarrow> tableState \<Rightarrow> tableState" where
  "placeOne processedContent targetRow st =
     (let m1 = (case getAt (fst st) targetRow of
                  None \<Rightarrow> setAt (fst st) targetRow []
                | Some cells \<Rightarrow> fst st);
          targetCol = length (matrixRow m1 targetRow);
          m2 = setAt m1 targetRow (matrixRow m1 targetRow @ [processedContent]);
          visibleLength = length (simplifiedContent processedContent);
          w = snd st;
          w2 = (case getAt w targetCol of
                  None \<Rightarrow> setAt w targetCol visibleLength
                | Some cw \<Rightarrow>
                    if cw = 0 \<or> visibleLength > cw then setAt w targetCol visibleLength else w)
      in (m2, w2))"

definition placeCell :: "nat \<Rightarrow> cell \<Rightarrow> tableState \<Rightarrow> tableState" where
  "placeCell rowIndex c st =
     foldl (\<lambda>st1 i.
        foldl (\<lambda>st2 j. placeOne (rendered c) (rowIndex + i) st2) st1
          [0..<nat (spanOf (colspanAttr c))])
       st [0..<nat (spanOf (rowspanAttr c))]"

definition placeRow :: "nat \<Rightarrow> row \<Rightarrow> tableState \<Rightarrow> tableState" where
  "placeRow rowIndex cells st = foldl (\<lambda>st1 c. placeCell rowIndex c st1) st cells"

fun placeRows :: "nat \<Rightarrow> row list \<Rightarrow> tableState \<Rightarrow> tableState" where
  "placeRows rowIndex [] st = st"
| "placeRows rowIndex (r # rs) st = placeRows (Suc rowIndex) rs (placeRow rowIndex r st)"

definition initialTable :: "row list \<Rightarrow> tableState" where
  "initialTable rows = (replicate (length rows) (Some []), [])"

definition buildMatrix :: "row list \<Rightarrow> tableState" where
  "buildMatrix rows = placeRows 0 rows (initialTable rows)"


text \<open>
  \<^verbatim>\<open>
  const formatCell = (content, columnIndex) => {
    const safeContent = content || '';
    if (!options.tableFormatting?.prettyPrint) { return ` ${safeContent} `; }
    if (columnIndex === undefined || !Array.isArray(columnWidths) ||
        columnIndex >= columnWidths.length) { return ` ${safeContent} `; }
    if (safeContent.includes('\n')) { return ` ${safeContent} `; }
    const visibleText = safeContent.replace(...).replace(...);
    const visibleLength = visibleText.length;
    const width = columnWidths[columnIndex] || 0;
    const totalWidth = width + 2;
    if (!options.tableFormatting?.centerText) {
      return ` ${safeContent}${' '.repeat(Math.max(0, totalWidth - visibleLength - 1))}`;
    }
    const leftSpace = ' '.repeat(Math.floor(Math.max(0, totalWidth - visibleLength) / 2));
    const rightSpace = ' '.repeat(Math.ceil(Math.max(0, totalWidth - visibleLength) / 2));
    return leftSpace + safeContent + rightSpace;
  };
  \<close>
\<close>

definition formatCell :: "tableFormatting option \<Rightarrow> nat option list \<Rightarrow> jsstring \<Rightarrow> nat \<Rightarrow> jsstring" where
  "formatCell tf columnWidths safeContent columnIndex =
     (if \<not> (case tf of None \<Rightarrow> False | Some f \<Rightarrow> prettyPrint f)
      then [chSpace] @ safeContent @ [chSpace]
      else if columnIndex \<ge> length columnWidths then [chSpace] @ safeContent @ [chSpace]
      else if chNewline \<in> set safeContent then [chSpace] @ safeContent @ [chSpace]
      else
        let visibleLength = length (visibleText safeContent);
            width = (case getAt columnWidths columnIndex of None \<Rightarrow> 0 | Some cw \<Rightarrow> cw);
            totalWidth = width + 2
        in if \<not> (case tf of None \<Rightarrow> False | Some f \<Rightarrow> centerText f)
           then [chSpace] @ safeContent @ replicate (totalWidth - visibleLength - 1) chSpace
           else replicate ((totalWidth - visibleLength) div 2) chSpace @ safeContent
                @ replicate ((totalWidth - visibleLength + 1) div 2) chSpace)"

text \<open>
  \<^verbatim>\<open>
  let markdown = '\n\n';
  if (tableMatrix.length > 0 && tableMatrix[0] && Array.isArray(tableMatrix[0])) {
    const headerContent = tableMatrix[0].map((cell, i) => formatCell(cell, i)).join('|');
    markdown += '|' + headerContent + '|\n';
    const separator = columnWidths.map(width => {
      const minWidth = Math.max(3, width);
      return '-'.repeat(minWidth + 2);
    }).join('|');
    markdown += '|' + separator + '|\n';
    for (let i = 1; i < tableMatrix.length; i++) {
      if (tableMatrix[i] && Array.isArray(tableMatrix[i])) {
        const row = tableMatrix[i].map((cell, j) => formatCell(cell, j)).join('|');
        markdown += '|' + row + '|\n';
      }
    }
  } else {
    markdown += '| No data available |\n|-|\n';
  }
  return markdown;
  \<close>
  A line of the table is given without its final newline.
\<close>

definition tableLine :: "tableFormatting option \<Rightarrow> nat option list \<Rightarrow> jsstring list \<Rightarrow> jsstring" where
  "tableLine tf columnWidths cells =
     [chPipe] @ joinWith [chPipe]
        (map (\<lambda>(i, content). formatCell tf columnWidths content i) (enumerate 0 cells))
     @ [chPipe]"

definition separatorLine :: "nat option list \<Rightarrow> jsstring" where
  "separatorLine columnWidths =
     [chPipe] @ joinWith [chPipe]
        (map (\<lambda>cw. case cw of None \<Rightarrow> [] | Some width \<Rightarrow> replicate (max 3 width + 2) 0x2D)
           columnWidths)
     @ [chPipe]"

definition tableLines :: "tableFormatting option \<Rightarrow> tableState \<Rightarrow> jsstring list" where
  "tableLines tf st =
     (case fst st of
        Some headerCells # rest \<Rightarrow>
          tableLine tf (snd st) headerCells # separatorLine (snd st)
          # concat (map (\<lambda>r. case r of None \<Rightarrow> [] | Some cells \<Rightarrow> [tableLine tf (snd st) cells]) rest)
      | _ \<Rightarrow> [js ''| No data available |'', js ''|-|''])"

definition tableReplacement :: "tableFormatting option \<Rightarrow> tableNode \<Rightarrow> jsstring" where
  "tableReplacement tf node =
     [chNewline, chNewline]
     @ concat (map (\<lambda>l. l @ [chNewline]) (tableLines tf (buildMatrix (tableRows node))))"

text \<open>
  A cell without \<open>rowspan\<close> and \<open>colspan\<close> attributes, and the values used in the
  examples: the default table formatting of the extension, a cell of plain text, and a
  table as the HTML parser builds it from \<open>tr\<close> elements alone (the rows are the children
  of an implied \<open>tbody\<close>).
\<close>

definition plainCell :: "cell \<Rightarrow> bool" where
  "plainCell c = (colspanAttr c = None \<and> rowspanAttr c = None)"

definition defaultTableFormatting :: "tableFormatting option" where
  "defaultTableFormatting =
     Some \<lparr>stripLinks = True, stripFormatting = False, prettyPrint = True, centerText = True\<rparr>"

definition plainTextCell :: "jsstring \<Rightarrow> cell" where
  "plainTextCell s = \<lparr>rendered = s, colspanAttr = None, rowspanAttr = None\<rparr>"

definition parsedTable :: "row list \<Rightarrow> tableNode" where
  "parsedTable rows = \<lparr>theadRow = None, tbodyChildren = Some rows, allRows = rows\<rparr>"

section \<open>The image manifest\<close>



text \<open>
  The manifest is a plain object (\<^verbatim>\<open>let imageList = {}\<close>): the list of its own properties
  (source URL and file name), kept here in the order of insertion (the engine lists the
  properties named by an array index first; no result depends on the order).
  \<open>imageList[src] = name\<close> replaces the value of an own property and adds the property at
  the end otherwise, but for the key \<open>__proto__\<close>: that is an accessor property of
  \<open>Object.prototype\<close>, whose setter does nothing with a string, so the object gets no
  property. \<open>imageList[src]\<close> gives the own property when there is one, and the property
  of \<open>Object.prototype\<close> otherwise. \<open>Object.values(imageList)\<close> are the values of the own
  properties.
\<close>

type_synonym imageList = "(jsstring \<times> jsstring) list"

fun assign :: "imageList \<Rightarrow> jsstring \<Rightarrow> jsstring \<Rightarrow> imageList" where
  "assign [] k v = [(k, v)]"
| "assign (p # ps) k v = (if fst p = k then (k, v) # ps else p # assign ps k v)"















section \<open>Document conversion: convertArticleToMarkdown\<close>

text \<open>
  The result of a conversion, \<open>{ markdown, imageList }\<close> or \<open>{ org, imageList }\<close>: the text of
  the document and the manifest of its images.
\<close>

record conversion =
  document :: jsstring
  images :: imageList

text \<open>
  The conversion engines (TurndownService and OrgDown with the rules of this repository
  registered) are a parameter: \<open>engine content\<close> is the text that
  \<open>turndownService.turndown(content)\<close> or \<open>orgdownService.orgdown(content)\<close> returns for a
  string, and the manifest that the image rule has filled on the way, or the error that
  a rule has thrown (the image rules throw when the base URI does not parse). For an
  input that is neither a string nor a DOM node both engines throw a TypeError; the
  properties of the article are never DOM nodes.
\<close>

type_synonym engine = "jsstring \<Rightarrow> jserror + jsstring \<times> imageList"

definition engineInput :: "jsval option \<Rightarrow> jserror + jsstring" where
  "engineInput content = (case content of Some (JStr c) \<Rightarrow> Inr c | _ \<Rightarrow> Inl TypeError)"

text \<open>
  \<^verbatim>\<open>
  function turndown(content, options, article) {
    ...
    let markdown = options.frontmatter + turndownService.turndown(content)
        + options.backmatter;
    markdown = markdown.replace(/[...]/g, '');
    return { markdown: markdown, imageList: imageList };
  }
  function orgdown(content, options, article) {
    ...
    let org = orgdownService.orgdown(content);
    org = org.replace(/[...]/g, '');
    return { org: org, imageList: imageList };
  }
  \<close>
\<close>

definition turndown :: "engine \<Rightarrow> jsval option \<Rightarrow> options \<Rightarrow> jserror + conversion" where
  "turndown engine content opts =
     bindE (engineInput content) (\<lambda>c.
     bindE (engine c) (\<lambda>r.
       Inr \<lparr>document = stripSpecialChars (frontmatter opts @ fst r @ backmatter opts),
            images = snd r\<rparr>))"

definition orgdown :: "engine \<Rightarrow> jsval option \<Rightarrow> jserror + conversion" where
  "orgdown engine content =
     bindE (engineInput content) (\<lambda>c.
     bindE (engine c) (\<lambda>r.
       Inr \<lparr>document = stripSpecialChars (fst r), images = snd r\<rparr>))"

text \<open>
  preDownloadImages fetches the images over the network and rewrites the text; it is a
  parameter, \<open>preDownload imageList text\<close>, whose promise may be rejected.
  \<^verbatim>\<open>
  async function convertArticleToOrg(article, options) {
    let orgPreamble = '';
    if (options.includeTemplate && options.orgPreambleTemplate) {
      orgPreamble = textReplace(options.orgPreambleTemplate, article) + '\n\n';
    }
    let result = orgdown(article.content, options, article);
    result.org = orgPreamble + result.org;
    if (options.downloadImages && options.downloadMode === 'downloadsApi') {
      result = await preDownloadImages(result.imageList, result.org);
      return { org: result.markdown, imageList: result.imageList };
    }
    return { org: result.org, imageList: result.imageList };
  }
  \<close>
\<close>

definition convertArticleToOrg ::
  "platform \<Rightarrow> engine \<Rightarrow> (imageList \<Rightarrow> jsstring \<Rightarrow> jserror + conversion)
     \<Rightarrow> article \<Rightarrow> options \<Rightarrow> jserror + conversion" where
  "convertArticleToOrg P engine preDownload a opts =
     bindE (if includeTemplate opts \<and> orgPreambleTemplate opts \<noteq> []
            then bindE (textReplace P (orgPreambleTemplate opts) a None)
                   (\<lambda>t. Inr (t @ [chNewline, chNewline]))
            else Inr [])
       (\<lambda>orgPreamble.
     bindE (orgdown engine (map_of a (js ''content''))) (\<lambda>result.
       if downloadImages opts \<and> downloadMode opts = js ''downloadsApi''
       then preDownload (images result) (orgPreamble @ document result)
       else Inr \<lparr>document = orgPreamble @ document result, images = images result\<rparr>))"

text \<open>
  \<^verbatim>\<open>
  async function convertArticleToMarkdown(article, downloadImages = null, providedOptions = null) {
    const options = providedOptions || defaultOptions;
    if (downloadImages != null) {
      options.downloadImages = downloadImages;
    }
    options.imagePrefix = textReplace(options.imagePrefix, article, options.disallowedChars)
      .split('/').map(s => generateValidFileName(s, options.disallowedChars)).join('/');
    if (options.outputFormat === 'org') {
      return convertArticleToOrg(article, options);
    }
    if (options.includeTemplate) {
      options.frontmatter = textReplace(options.frontmatter, article) + '\n';
      options.backmatter = '\n' + textReplace(options.backmatter, article);
    }
    else {
      options.frontmatter = options.backmatter = '';
    }
    let result = turndown(article.content, options, article);
    if (options.downloadImages && options.downloadMode === 'downloadsApi') {
      result = await preDownloadImages(result.imageList, result.markdown);
    }
    return result;
  }
  \<close>
  \<open>defaultOptions\<close> is a variable of the module and a parameter here. The function also
  leaves the new values of \<open>downloadImages\<close>, \<open>imagePrefix\<close>, \<open>frontmatter\<close> and \<open>backmatter\<close> in the
  options object it was given; the model gives the result of the call.
\<close>

definition convertArticleToMarkdown ::
  "platform \<Rightarrow> engine \<Rightarrow> engine
     \<Rightarrow> (imageList \<Rightarrow> jsstring \<Rightarrow> jserror + conversion) \<Rightarrow> options
     \<Rightarrow> article \<Rightarrow> bool option \<Rightarrow> options option \<Rightarrow> jserror + conversion" where
  "convertArticleToMarkdown P markdownEngine orgEngine preDownload defaultOptions
       a downloadImagesArg providedOptions =
     (let options0 = (case providedOptions of Some given \<Rightarrow> given | None \<Rightarrow> defaultOptions);
          options1 = (case downloadImagesArg of
                        Some b \<Rightarrow> options0\<lparr>downloadImages := b\<rparr>
                      | None \<Rightarrow> options0)
      in bindE (textReplace P (imagePrefix options1) a (disallowedChars options1)) (\<lambda>t.
         let options2 = options1\<lparr>imagePrefix :=
               joinWith [chSlash]
                 (map (\<lambda>piece. case generateValidFileName (Some piece) (disallowedChars options1) of
                                  Some r \<Rightarrow> r | None \<Rightarrow> piece)
                    (splitOn chSlash t))\<rparr>
         in if outputFormat options2 = js ''org''
            then convertArticleToOrg P orgEngine preDownload a options2
            else
              bindE (if includeTemplate options2
                     then bindE (textReplace P (frontmatter options2) a None) (\<lambda>fm.
                          bindE (textReplace P (backmatter options2) a None) (\<lambda>bm.
                          Inr (options2\<lparr>frontmatter := fm @ [chNewline],
                                         backmatter := chNewline # bm\<rparr>)))
                     else Inr (options2\<lparr>frontmatter := [], backmatter := []\<rparr>))
                (\<lambda>options3.
              bindE (turndown markdownEngine (map_of a (js ''content'')) options3) (\<lambda>result.
                if downloadImages options3 \<and> downloadMode options3 = js ''downloadsApi''
                then preDownload (images result) (document result)
                else Inr result))))"

section \<open>Properties\<close>

subsection \<open>generateValidFileName\<close>

lemmas ch_defs = chNewline_def chCarriageReturn_def chSpace_def chQuote_def chDollar_def
  chDot_def chSlash_def chBackslash_def chBacktick_def chLBrace_def chPipe_def chRBrace_def
  chNbsp_def isLineTerminator_def





lemma codePoints_no_pair: "\<not> hasSurrogatePair d \<Longrightarrow> codePoints d = map (\<lambda>x. [x]) d"
  by (induction d rule: codePoints.induct) auto

lemma patternLiteral_escape_single: "patternLiteral (escapeDisallowed [x]) = [x]"
  by (simp add: patternLiteral_def escapeDisallowed_def)

lemma removeAllLit_single: "removeAllLit [x] s = filter (\<lambda>y. y \<noteq> x) s"
  by (induction s) auto

lemma foldl_stripDisallowed_singles:
  "foldl stripDisallowed name (map (\<lambda>x. [x]) d) = filter (\<lambda>y. y \<notin> set d) name"
proof (induction d arbitrary: name)
  case Nil
  then show ?case by simp
next
  case (Cons x d)
  have step: "stripDisallowed name [x] = filter (\<lambda>y. y \<noteq> x) name"
    by (simp add: stripDisallowed_def patternLiteral_escape_single removeAllLit_single)
  have "foldl stripDisallowed name (map (\<lambda>x. [x]) (x # d))
      = foldl stripDisallowed (stripDisallowed name [x]) (map (\<lambda>x. [x]) d)"
    by simp
  also have "\<dots> = filter (\<lambda>y. y \<notin> set d) (filter (\<lambda>y. y \<noteq> x) name)"
    by (simp only: step Cons.IH)
  also have "\<dots> = filter (\<lambda>y. y \<notin> set (x # d)) name"
    by (auto intro: filter_cong)
  finally show ?case .
qed

lemma generateValidFileName_no_pair:
  assumes "\<not> hasSurrogatePair d" and "s \<noteq> []"
  shows "generateValidFileName (Some s) (Some d) =
     Some (filter (\<lambda>y. y \<notin> set d)
        (map (\<lambda>c. if c = chNbsp then chSpace else c) (filter (\<lambda>c. c \<notin> set illegalChars) s)))"
  using assms
  by (simp add: generateValidFileName_def Let_def codePoints_no_pair foldl_stripDisallowed_singles)

lemma sanitize_fixpoint:
  assumes "r = filter (\<lambda>y. y \<notin> set d)
        (map (\<lambda>c. if c = chNbsp then chSpace else c) (filter (\<lambda>c. c \<notin> set illegalChars) s))"
  shows "filter (\<lambda>y. y \<notin> set d)
        (map (\<lambda>c. if c = chNbsp then chSpace else c) (filter (\<lambda>c. c \<notin> set illegalChars) r)) = r"
proof -
  have a: "\<forall>c\<in>set r. c \<notin> set illegalChars"
    unfolding assms by (auto simp: illegalChars_def chSpace_def chNbsp_def)
  have b: "\<forall>c\<in>set r. c \<noteq> chNbsp"
    unfolding assms by (auto simp: illegalChars_def chSpace_def chNbsp_def)
  have c: "\<forall>c\<in>set r. c \<notin> set d"
    unfolding assms by auto
  have 1: "filter (\<lambda>c. c \<notin> set illegalChars) r = r" using a by (simp add: filter_id_conv)
  have 2: "map (\<lambda>c. if c = chNbsp then chSpace else c) r = r" using b by (simp add: map_idI)
  have 3: "filter (\<lambda>y. y \<notin> set d) r = r" using c by (simp add: filter_id_conv)
  show ?thesis by (simp add: 1 2 3)
qed

lemma generateValidFileName_idempotent_no_pair:
  assumes "case d of None \<Rightarrow> True | Some ds \<Rightarrow> \<not> hasSurrogatePair ds"
  shows "generateValidFileName (generateValidFileName s d) d = generateValidFileName s d"
proof (cases s)
  case None
  then show ?thesis by (simp add: generateValidFileName_def)
next
  case (Some t)
  show ?thesis
  proof (cases "t = []")
    case True
    then show ?thesis using Some by (simp add: generateValidFileName_def)
  next
    case False
    define ds where "ds = (case d of None \<Rightarrow> [] | Some x \<Rightarrow> x)"
    have np: "\<not> hasSurrogatePair ds" using assms by (auto simp: ds_def split: option.splits)
    have eqd: "\<And>u. generateValidFileName (Some u) d = generateValidFileName (Some u) (Some ds)"
      by (auto simp: ds_def generateValidFileName_def Let_def split: option.splits)
    define r where "r = filter (\<lambda>y. y \<notin> set ds)
        (map (\<lambda>c. if c = chNbsp then chSpace else c) (filter (\<lambda>c. c \<notin> set illegalChars) t))"
    have first: "generateValidFileName (Some t) d = Some r"
      using generateValidFileName_no_pair[OF np False] by (simp add: eqd r_def)
    have second: "generateValidFileName (Some r) d = Some r"
    proof (cases "r = []")
      case True
      then show ?thesis by (simp add: generateValidFileName_def)
    next
      case False
      show ?thesis
        using generateValidFileName_no_pair[OF np False] sanitize_fixpoint[OF r_def]
        by (simp add: eqd)
    qed
    show ?thesis using Some first second by simp
  qed
qed

lemma validCodePoint_cases:
  assumes "validCodePoint c"
  obtains u where "c = [u]" "\<not> isHighSurrogate u" "\<not> isLowSurrogate u"
  | h l where "c = [h, l]" "isHighSurrogate h" "isLowSurrogate l"
  using assms by (auto simp: validCodePoint_def split: list.splits)

lemma not_high_and_low: "isHighSurrogate x \<Longrightarrow> \<not> isLowSurrogate x"
  by (simp add: isHighSurrogate_def isLowSurrogate_def)

lemma wellFormed_concat:
  "wellFormed s \<Longrightarrow> \<exists>cps. (\<forall>c\<in>set cps. validCodePoint c) \<and> s = concat cps"
proof (induction s rule: wellFormed.induct)
  case 1
  have "(\<forall>c\<in>set []. validCodePoint c) \<and> [] = concat ([]::jsstring list)" by simp
  then show ?case by blast
next
  case (2 a)
  then have "(\<forall>c\<in>set [[a]]. validCodePoint c) \<and> [a] = concat [[a]]"
    by (simp add: validCodePoint_def)
  then show ?case by blast
next
  case (3 a b cs)
  show ?case
  proof (cases "isHighSurrogate a")
    case True
    then have lb: "isLowSurrogate b" and wf: "wellFormed cs" using "3.prems" by simp_all
    obtain cps where "\<forall>c\<in>set cps. validCodePoint c" "cs = concat cps"
      using "3.IH"(1)[OF True wf] by blast
    then have "(\<forall>c\<in>set ([a, b] # cps). validCodePoint c) \<and> a # b # cs = concat ([a, b] # cps)"
      using True lb by (simp add: validCodePoint_def)
    then show ?thesis by blast
  next
    case False
    then have la: "\<not> isLowSurrogate a" and wf: "wellFormed (b # cs)" using "3.prems" by simp_all
    obtain cps where "\<forall>c\<in>set cps. validCodePoint c" "b # cs = concat cps"
      using "3.IH"(2)[OF False wf] by blast
    then have "(\<forall>c\<in>set ([a] # cps). validCodePoint c) \<and> a # b # cs = concat ([a] # cps)"
      using False la by (simp add: validCodePoint_def)
    then show ?thesis by blast
  qed
qed

lemma wellFormed_codePoints: "wellFormed d \<Longrightarrow> \<forall>c\<in>set (codePoints d). validCodePoint c"
proof (induction d rule: codePoints.induct)
  case 1
  then show ?case by simp
next
  case (2 a)
  then show ?case by (simp add: validCodePoint_def)
next
  case (3 a b cs)
  show ?case
  proof (cases "isHighSurrogate a")
    case True
    then have lb: "isLowSurrogate b" and wf: "wellFormed cs" using "3.prems" by simp_all
    have "\<forall>c\<in>set (codePoints cs). validCodePoint c" using "3.IH"(1) True lb wf by simp
    then show ?thesis using True lb by (simp add: validCodePoint_def)
  next
    case False
    then have la: "\<not> isLowSurrogate a" and wf: "wellFormed (b # cs)" using "3.prems" by simp_all
    have "\<forall>c\<in>set (codePoints (b # cs)). validCodePoint c" using "3.IH"(2) False wf by simp
    then show ?thesis using False la by (simp add: validCodePoint_def)
  qed
qed

lemma patternLiteral_escape_valid:
  "validCodePoint c \<Longrightarrow> patternLiteral (escapeDisallowed c) = c"
proof (erule validCodePoint_cases)
  fix u assume "c = [u]"
  then show ?thesis by (simp add: patternLiteral_def escapeDisallowed_def)
next
  fix h l assume c: "c = [h, l]" and h: "isHighSurrogate h"
  have "h \<noteq> chBackslash" using h by (auto simp: isHighSurrogate_def chBackslash_def)
  then show ?thesis using c by (simp add: patternLiteral_def escapeDisallowed_def)
qed

lemma removeAllLit_concat:
  assumes "validCodePoint c" and "\<forall>x\<in>set cps. validCodePoint x"
  shows "removeAllLit c (concat cps) = concat (filter (\<lambda>x. x \<noteq> c) cps)"
  using assms(2)
proof (induction cps)
  case Nil
  then show ?case by simp
next
  case (Cons x xs)
  have ih: "removeAllLit c (concat xs) = concat (filter (\<lambda>x. x \<noteq> c) xs)"
    using Cons by simp
  have vx: "validCodePoint x" using Cons.prems by simp
  from vx show ?case
  proof (cases rule: validCodePoint_cases)
    case (1 u)
    from assms(1) show ?thesis
    proof (cases rule: validCodePoint_cases)
      case c1: (1 u')
      then show ?thesis using 1 ih by auto
    next
      case c2: (2 h l)
      then have "h \<noteq> u" using 1 by auto
      then show ?thesis using 1 c2 ih by auto
    qed
  next
    case (2 a b)
    from assms(1) show ?thesis
    proof (cases rule: validCodePoint_cases)
      case c1: (1 u')
      then have "u' \<noteq> a" "u' \<noteq> b" using 2 by auto
      then show ?thesis using 2 c1 ih by auto
    next
      case c2: (2 h l)
      have "h \<noteq> b" using c2 2 not_high_and_low by auto
      then show ?thesis using 2 c2 ih by auto
    qed
  qed
qed

lemma surrogate_not_illegal:
  "isHighSurrogate u \<or> isLowSurrogate u \<Longrightarrow> u \<notin> set illegalChars \<and> u \<noteq> chNbsp"
  by (auto simp: isHighSurrogate_def isLowSurrogate_def illegalChars_def chNbsp_def)

lemma step1_concat:
  assumes "\<forall>x\<in>set cps. validCodePoint x"
  shows "map (\<lambda>c. if c = chNbsp then chSpace else c) (filter (\<lambda>c. c \<notin> set illegalChars) (concat cps))
       = concat (map (map (\<lambda>c. if c = chNbsp then chSpace else c))
                   (filter (\<lambda>x. \<forall>u\<in>set x. u \<notin> set illegalChars) cps))"
  using assms
proof (induction cps)
  case Nil
  then show ?case by simp
next
  case (Cons x xs)
  have vx: "validCodePoint x" using Cons.prems by simp
  from vx show ?case
  proof (cases rule: validCodePoint_cases)
    case (1 u)
    then show ?thesis using Cons by simp
  next
    case (2 h l)
    then have "h \<notin> set illegalChars" "l \<notin> set illegalChars"
      using surrogate_not_illegal by blast+
    then show ?thesis using 2 Cons by simp
  qed
qed

lemma step1_valid:
  assumes "\<forall>x\<in>set cps. validCodePoint x"
  shows "\<forall>x\<in>set (map (map (\<lambda>c. if c = chNbsp then chSpace else c))
                   (filter (\<lambda>x. \<forall>u\<in>set x. u \<notin> set illegalChars) cps)). validCodePoint x"
proof -
  have sp: "\<not> isHighSurrogate chSpace \<and> \<not> isLowSurrogate chSpace"
    by (simp add: isHighSurrogate_def isLowSurrogate_def chSpace_def)
  have "\<And>x. validCodePoint x \<Longrightarrow> validCodePoint (map (\<lambda>c. if c = chNbsp then chSpace else c) x)"
  proof -
    fix x assume "validCodePoint x"
    then show "validCodePoint (map (\<lambda>c. if c = chNbsp then chSpace else c) x)"
    proof (cases rule: validCodePoint_cases)
      case (1 u)
      then show ?thesis using sp by (simp add: validCodePoint_def)
    next
      case (2 h l)
      then have "h \<noteq> chNbsp" "l \<noteq> chNbsp" using surrogate_not_illegal by blast+
      then show ?thesis using 2 by (simp add: validCodePoint_def)
    qed
  qed
  then show ?thesis using assms by auto
qed

lemma foldl_stripDisallowed_concat:
  assumes "\<forall>c\<in>set dcps. validCodePoint c" and "\<forall>x\<in>set ncps. validCodePoint x"
  shows "foldl stripDisallowed (concat ncps) dcps = concat (filter (\<lambda>x. x \<notin> set dcps) ncps)"
  using assms
proof (induction dcps arbitrary: ncps)
  case Nil
  then show ?case by simp
next
  case (Cons c dcps)
  have vc: "validCodePoint c" using Cons.prems(1) by simp
  have step: "stripDisallowed (concat ncps) c = concat (filter (\<lambda>x. x \<noteq> c) ncps)"
    using removeAllLit_concat[OF vc Cons.prems(2)]
    by (simp add: stripDisallowed_def patternLiteral_escape_valid[OF vc])
  have "foldl stripDisallowed (concat (filter (\<lambda>x. x \<noteq> c) ncps)) dcps
      = concat (filter (\<lambda>x. x \<notin> set dcps) (filter (\<lambda>x. x \<noteq> c) ncps))"
    by (rule Cons.IH) (use Cons.prems in auto)
  also have "\<dots> = concat (filter (\<lambda>x. x \<notin> set (c # dcps)) ncps)"
    by (simp add: conj_commute)
  finally show ?case using step by simp
qed

lemma generateValidFileName_nonempty:
  "t \<noteq> [] \<Longrightarrow> generateValidFileName (Some t) (Some d)
     = Some (foldl stripDisallowed (map (\<lambda>c. if c = chNbsp then chSpace else c)
         (filter (\<lambda>c. c \<notin> set illegalChars) t)) (codePoints d))"
  by (simp add: generateValidFileName_def Let_def)

lemma generateValidFileName_concat:
  assumes "\<forall>x\<in>set cps. validCodePoint x" and "wellFormed d" and "concat cps \<noteq> []"
  shows "generateValidFileName (Some (concat cps)) (Some d)
       = Some (concat (sanitizeCodePoints (codePoints d) cps))"
proof -
  have vd: "\<forall>c\<in>set (codePoints d). validCodePoint c" using assms(2) by (rule wellFormed_codePoints)
  show ?thesis
    by (simp only: generateValidFileName_nonempty[OF assms(3)] step1_concat[OF assms(1)]
        foldl_stripDisallowed_concat[OF vd step1_valid[OF assms(1)]] sanitizeCodePoints_def)
qed

lemma sanitizeCodePoints_valid:
  assumes "\<forall>x\<in>set cps. validCodePoint x"
  shows "\<forall>x\<in>set (sanitizeCodePoints dcps cps). validCodePoint x"
proof
  fix x assume "x \<in> set (sanitizeCodePoints dcps cps)"
  then have "x \<in> set (map (map (\<lambda>c. if c = chNbsp then chSpace else c))
          (filter (\<lambda>x. \<forall>u\<in>set x. u \<notin> set illegalChars) cps))"
    unfolding sanitizeCodePoints_def set_filter by blast
  then show "validCodePoint x" using step1_valid[OF assms] by blast
qed

lemma nbspToSpace_props:
  "u \<notin> set illegalChars \<Longrightarrow>
     (if u = chNbsp then chSpace else u) \<notin> set illegalChars \<and>
     (if u = chNbsp then chSpace else u) \<noteq> chNbsp"
  by (simp add: illegalChars_def chSpace_def chNbsp_def)

lemma sanitizeCodePoints_units:
  assumes "x \<in> set (sanitizeCodePoints dcps cps)" and "u \<in> set x"
  shows "u \<notin> set illegalChars \<and> u \<noteq> chNbsp"
proof -
  let ?g = "\<lambda>c. if c = chNbsp then chSpace else c"
  from assms(1) have "x \<in> set (map (map ?g) (filter (\<lambda>x. \<forall>u\<in>set x. u \<notin> set illegalChars) cps))"
    unfolding sanitizeCodePoints_def set_filter by blast
  then obtain y where y: "\<forall>u\<in>set y. u \<notin> set illegalChars" and x: "x = map ?g y"
    by auto
  from assms(2) x obtain v where v: "v \<in> set y" and u: "u = ?g v" by auto
  from y v have "v \<notin> set illegalChars" by blast
  from nbspToSpace_props[OF this] show ?thesis unfolding u .
qed

lemma sanitizeCodePoints_idem:
  "sanitizeCodePoints dcps (sanitizeCodePoints dcps cps) = sanitizeCodePoints dcps cps"
proof -
  let ?g = "\<lambda>c. if c = chNbsp then chSpace else c"
  define r where "r = sanitizeCodePoints dcps cps"
  have units: "\<And>x u. x \<in> set r \<Longrightarrow> u \<in> set x \<Longrightarrow> u \<notin> set illegalChars \<and> u \<noteq> chNbsp"
    unfolding r_def by (rule sanitizeCodePoints_units)
  have a: "filter (\<lambda>x. \<forall>u\<in>set x. u \<notin> set illegalChars) r = r"
    using units by (simp add: filter_id_conv)
  have "\<And>x. x \<in> set r \<Longrightarrow> map ?g x = x"
  proof -
    fix x assume "x \<in> set r"
    then have "\<And>u. u \<in> set x \<Longrightarrow> ?g u = u" using units by auto
    then show "map ?g x = x" by (rule map_idI)
  qed
  then have b: "map (map ?g) r = r" by (rule map_idI)
  have "\<And>x. x \<in> set r \<Longrightarrow> x \<notin> set dcps"
    unfolding r_def sanitizeCodePoints_def set_filter by blast
  then have c: "filter (\<lambda>x. x \<notin> set dcps) r = r" by (simp add: filter_id_conv)
  have "sanitizeCodePoints dcps r = r"
    unfolding sanitizeCodePoints_def[of dcps r] by (simp only: a b c)
  then show ?thesis unfolding r_def .
qed

lemma generateValidFileName_idempotent_wf:
  assumes "wellFormed t" and "wellFormed d"
  shows "generateValidFileName (generateValidFileName (Some t) (Some d)) (Some d)
       = generateValidFileName (Some t) (Some d)"
proof (cases "t = []")
  case True
  then show ?thesis by (simp add: generateValidFileName_def)
next
  case False
  obtain cps where v: "\<forall>c\<in>set cps. validCodePoint c" and t: "t = concat cps"
    using wellFormed_concat[OF assms(1)] by blast
  define r where "r = sanitizeCodePoints (codePoints d) cps"
  have ne: "concat cps \<noteq> []" using False unfolding t .
  have first: "generateValidFileName (Some t) (Some d) = Some (concat r)"
    unfolding t r_def by (rule generateValidFileName_concat[OF v assms(2) ne])
  have vr: "\<forall>x\<in>set r. validCodePoint x" unfolding r_def by (rule sanitizeCodePoints_valid[OF v])
  have second: "generateValidFileName (Some (concat r)) (Some d) = Some (concat r)"
  proof (cases "concat r = []")
    case True
    show ?thesis unfolding True by (simp add: generateValidFileName_def)
  next
    case False
    have "generateValidFileName (Some (concat r)) (Some d)
        = Some (concat (sanitizeCodePoints (codePoints d) r))"
      by (rule generateValidFileName_concat[OF vr assms(2) False])
    also have "sanitizeCodePoints (codePoints d) r = r"
      unfolding r_def by (rule sanitizeCodePoints_idem)
    finally show ?thesis .
  qed
  show ?thesis unfolding first second ..
qed

text \<open>
  C10 (as amended). generateValidFileName is idempotent, applying it twice with the same
  list of disallowed characters gives what applying it once gives, whenever the list of
  disallowed characters holds no surrogate pair (every disallowed character is one
  UTF-16 code unit), or the list and the input string are both well-formed UTF-16.
\<close>

theorem generateValidFileName_idempotent_wellformed:
  assumes "case d of None \<Rightarrow> True
           | Some ds \<Rightarrow> \<not> hasSurrogatePair ds \<or>
               (wellFormed ds \<and> (case s of None \<Rightarrow> True | Some t \<Rightarrow> wellFormed t))"
  shows "generateValidFileName (generateValidFileName s d) d = generateValidFileName s d"
proof (cases d)
  case None
  then show ?thesis by (simp add: generateValidFileName_idempotent_no_pair)
next
  case (Some ds)
  show ?thesis
  proof (cases "hasSurrogatePair ds")
    case False
    then show ?thesis using Some by (simp add: generateValidFileName_idempotent_no_pair)
  next
    case True
    then have wd: "wellFormed ds" and ws: "case s of None \<Rightarrow> True | Some t \<Rightarrow> wellFormed t"
      using assms Some by simp_all
    show ?thesis
    proof (cases s)
      case None
      then show ?thesis by (simp add: generateValidFileName_def)
    next
      case st: (Some t)
      then have "wellFormed t" using ws by simp
      then show ?thesis unfolding st Some using wd by (rule generateValidFileName_idempotent_wf)
    qed
  qed
qed

theorem generateValidFileName_idempotent_wellformed_witness:
  "generateValidFileName
     (generateValidFileName (Some [0x61, 0xD83D, 0xDE00, 0x2F, 0x62]) (Some [0xD83D, 0xDE00, 0x23]))
     (Some [0xD83D, 0xDE00, 0x23])
     = generateValidFileName (Some [0x61, 0xD83D, 0xDE00, 0x2F, 0x62]) (Some [0xD83D, 0xDE00, 0x23])
   \<and> generateValidFileName (Some [0x61, 0xD83D, 0xDE00, 0x2F, 0x62]) (Some [0xD83D, 0xDE00, 0x23])
     = Some [0x61, 0x62]"
proof -
  have h: "case Some [0xD83D, 0xDE00, 0x23] of None \<Rightarrow> True
           | Some ds \<Rightarrow> \<not> hasSurrogatePair ds \<or>
               (wellFormed ds \<and>
                (case Some [0x61, 0xD83D, 0xDE00, 0x2F, 0x62] of None \<Rightarrow> True
                 | Some t \<Rightarrow> wellFormed t))"
    by (simp add: isHighSurrogate_def isLowSurrogate_def)
  have v: "generateValidFileName (Some [0x61, 0xD83D, 0xDE00, 0x2F, 0x62]) (Some [0xD83D, 0xDE00, 0x23])
     = Some [0x61, 0x62]"
    by (simp add: generateValidFileName_def illegalChars_def chNbsp_def chSpace_def
        stripDisallowed_def escapeDisallowed_def regexMetaChars_def patternLiteral_def
        isHighSurrogate_def isLowSurrogate_def chBackslash_def)
  from generateValidFileName_idempotent_wellformed[OF h] v
  show ?thesis by (rule conjI)
qed

text \<open>
  C10 as stated fails: a disallowed character outside the Basic Multilingual Plane is
  removed as a sequence of two code units in one pass, and removing an occurrence can
  bring the two halves of another together. With U+1F600 (D83D DE00) disallowed, the
  input D83D D83D DE00 DE00 gives D83D DE00 the first time and the empty string the
  second time.
\<close>

theorem generateValidFileName_idempotent_counterexample:
  "generateValidFileName
     (generateValidFileName (Some [0xD83D, 0xD83D, 0xDE00, 0xDE00]) (Some [0xD83D, 0xDE00]))
     (Some [0xD83D, 0xDE00])
   \<noteq> generateValidFileName (Some [0xD83D, 0xD83D, 0xDE00, 0xDE00]) (Some [0xD83D, 0xDE00])"
  by (simp add: generateValidFileName_def illegalChars_def chNbsp_def chSpace_def
        stripDisallowed_def escapeDisallowed_def regexMetaChars_def patternLiteral_def
        isHighSurrogate_def isLowSurrogate_def chBackslash_def)

subsection \<open>textReplace\<close>

lemma closesOnLine_scanToClose: "closesOnLine cs \<longleftrightarrow> scanToClose cs \<noteq> None"
  by (induction cs) (auto split: option.splits)

lemma closesOnLine_stripBraces: "\<not> closesOnLine cs \<Longrightarrow> \<not> closesOnLine (stripBraces cs)"
proof (induction cs rule: stripBraces.induct)
  case 1
  then show ?case by simp
next
  case (2 c cs)
  show ?case
  proof (cases "c = chLBrace")
    case True
    then have notlt: "\<not> isLineTerminator c" and notr: "c \<noteq> chRBrace"
      by (simp_all add: chLBrace_def chRBrace_def isLineTerminator_def)
    with "2.prems" have nc: "\<not> closesOnLine cs" by simp
    then have none: "scanToClose cs = None" using closesOnLine_scanToClose[of cs] by blast
    have "\<not> closesOnLine (stripBraces cs)" using "2.IH"(1)[OF True none nc] .
    then show ?thesis using True none notr by simp
  next
    case False
    show ?thesis
    proof (cases "isLineTerminator c")
      case True
      with "2.prems" have "c \<noteq> chRBrace" by auto
      then show ?thesis using False True by simp
    next
      case nl: False
      with "2.prems" have nc: "\<not> closesOnLine cs" and nr: "c \<noteq> chRBrace" by auto
      have "\<not> closesOnLine (stripBraces cs)" using "2.IH"(3)[OF False nc] .
      then show ?thesis using False nr by simp
    qed
  qed
qed

lemma stripBraces_no_token: "\<not> hasToken (stripBraces s)"
proof (induction s rule: stripBraces.induct)
  case 1
  then show ?case by simp
next
  case (2 c cs)
  show ?case
  proof (cases "c = chLBrace")
    case True
    show ?thesis
    proof (cases "scanToClose cs")
      case None
      then have "\<not> closesOnLine cs" using closesOnLine_scanToClose[of cs] by blast
      then have "\<not> closesOnLine (stripBraces cs)" by (rule closesOnLine_stripBraces)
      moreover have "\<not> hasToken (stripBraces cs)" using "2.IH"(1)[OF True None] .
      ultimately show ?thesis using True None by simp
    next
      case (Some mr)
      obtain mid rest where mr: "mr = (mid, rest)" by (cases mr)
      have "\<not> hasToken (stripBraces rest)" using "2.IH"(2)[OF True Some mr[symmetric]] .
      then show ?thesis using True Some mr by simp
    qed
  next
    case False
    then show ?thesis using "2.IH"(3) by simp
  qed
qed

lemma closesOnLine_iff:
  "closesOnLine cs \<longleftrightarrow> (\<exists>mid post. cs = mid @ chRBrace # post \<and> (\<forall>c\<in>set mid. \<not> isLineTerminator c))"
proof (induction cs)
  case Nil
  then show ?case by simp
next
  case (Cons c cs)
  show ?case
  proof
    assume "closesOnLine (c # cs)"
    then consider "c = chRBrace" | "\<not> isLineTerminator c" "closesOnLine cs" by auto
    then show "\<exists>mid post. c # cs = mid @ chRBrace # post \<and> (\<forall>c\<in>set mid. \<not> isLineTerminator c)"
    proof cases
      case 1
      then have "c # cs = [] @ chRBrace # cs \<and> (\<forall>c\<in>set []. \<not> isLineTerminator c)" by simp
      then show ?thesis by blast
    next
      case 2
      then obtain mid post where "cs = mid @ chRBrace # post" "\<forall>c\<in>set mid. \<not> isLineTerminator c"
        using Cons.IH by blast
      then have "c # cs = (c # mid) @ chRBrace # post \<and> (\<forall>x\<in>set (c # mid). \<not> isLineTerminator x)"
        using 2 by simp
      then show ?thesis by blast
    qed
  next
    assume "\<exists>mid post. c # cs = mid @ chRBrace # post \<and> (\<forall>c\<in>set mid. \<not> isLineTerminator c)"
    then obtain mid post where eq: "c # cs = mid @ chRBrace # post"
      and nl: "\<forall>c\<in>set mid. \<not> isLineTerminator c" by blast
    show "closesOnLine (c # cs)"
    proof (cases mid)
      case Nil
      then show ?thesis using eq by simp
    next
      case (Cons m ms)
      then have "c = m" "cs = ms @ chRBrace # post" using eq by simp_all
      moreover have "\<not> isLineTerminator m" "\<forall>c\<in>set ms. \<not> isLineTerminator c" using nl Cons by simp_all
      ultimately show ?thesis using Cons.IH by auto
    qed
  qed
qed

lemma hasToken_iff:
  "hasToken s \<longleftrightarrow>
   (\<exists>pre mid post. s = pre @ chLBrace # mid @ chRBrace # post \<and> (\<forall>c\<in>set mid. \<not> isLineTerminator c))"
proof (induction s)
  case Nil
  then show ?case by simp
next
  case (Cons c cs)
  show ?case
  proof
    assume "hasToken (c # cs)"
    then consider "c = chLBrace" "closesOnLine cs" | "hasToken cs" by auto
    then show "\<exists>pre mid post. c # cs = pre @ chLBrace # mid @ chRBrace # post \<and> (\<forall>c\<in>set mid. \<not> isLineTerminator c)"
    proof cases
      case 1
      then obtain mid post where "cs = mid @ chRBrace # post" "\<forall>c\<in>set mid. \<not> isLineTerminator c"
        using closesOnLine_iff by blast
      then have "c # cs = [] @ chLBrace # mid @ chRBrace # post \<and> (\<forall>c\<in>set mid. \<not> isLineTerminator c)"
        using 1 by simp
      then show ?thesis by blast
    next
      case 2
      then obtain pre mid post where "cs = pre @ chLBrace # mid @ chRBrace # post"
        "\<forall>c\<in>set mid. \<not> isLineTerminator c" using Cons.IH by blast
      then have "c # cs = (c # pre) @ chLBrace # mid @ chRBrace # post \<and> (\<forall>c\<in>set mid. \<not> isLineTerminator c)"
        by simp
      then show ?thesis by blast
    qed
  next
    assume "\<exists>pre mid post. c # cs = pre @ chLBrace # mid @ chRBrace # post \<and> (\<forall>c\<in>set mid. \<not> isLineTerminator c)"
    then obtain pre mid post where eq: "c # cs = pre @ chLBrace # mid @ chRBrace # post"
      and nl: "\<forall>c\<in>set mid. \<not> isLineTerminator c" by blast
    show "hasToken (c # cs)"
    proof (cases pre)
      case Nil
      then have "c = chLBrace" "cs = mid @ chRBrace # post" using eq by simp_all
      then show ?thesis using nl closesOnLine_iff by auto
    next
      case (Cons p ps)
      then have "cs = ps @ chLBrace # mid @ chRBrace # post" using eq by simp
      then have "hasToken cs" using nl Cons.IH by blast
      then show ?thesis by simp
    qed
  qed
qed

lemma regexpReplaceE_Inl:
  "regexpReplaceE P src subj rep = Inl e \<Longrightarrow> e = SyntaxError \<and> regexpReplace P src subj rep = None"
  by (auto simp: regexpReplaceE_def split: option.splits)

lemma replaceField_Inl:
  "replaceField P d string kv = Inl e \<Longrightarrow>
   e = SyntaxError \<and> (\<exists>src subj rep. regexpReplace P src subj rep = None)"
  unfolding replaceField_def Let_def bindE_def
  by (auto split: if_splits sum.splits dest!: regexpReplaceE_Inl)

lemma replaceFields_Inl:
  "replaceFields P d string a = Inl e \<Longrightarrow>
   e = SyntaxError \<and> (\<exists>src subj rep. regexpReplace P src subj rep = None)"
proof (induction a arbitrary: string)
  case Nil
  then show ?case by simp
next
  case (Cons kv rest)
  show ?case
  proof (cases "replaceField P d string kv")
    case (Inl e')
    then have "e' = e" using Cons.prems by (simp add: bindE_def)
    then show ?thesis using replaceField_Inl[of P d string kv e] Inl by simp
  next
    case (Inr s)
    then have "replaceFields P d s rest = Inl e" using Cons.prems by (simp add: bindE_def)
    then show ?thesis by (rule Cons.IH)
  qed
qed

lemma replaceKeyword_Inl:
  "replaceKeyword P a string m = Inl e \<Longrightarrow>
   (e = TypeError \<and> keywordList a = Inl TypeError) \<or>
   (e = SyntaxError \<and> (\<exists>src subj rep. regexpReplace P src subj rep = None))"
  unfolding replaceKeyword_def Let_def bindE_def
  by (auto split: sum.splits dest!: regexpReplaceE_Inl simp: keywordList_def split: option.splits jsval.splits if_splits)

lemma replaceKeywordsLoop_Inl:
  "replaceKeywordsLoop P a string ms = Inl e \<Longrightarrow>
   (e = TypeError \<and> keywordList a = Inl TypeError) \<or>
   (e = SyntaxError \<and> (\<exists>src subj rep. regexpReplace P src subj rep = None))"
proof (induction ms arbitrary: string)
  case Nil
  then show ?case by simp
next
  case (Cons m ms)
  show ?case
  proof (cases "replaceKeyword P a string m")
    case (Inl e')
    then have "e' = e" using Cons.prems by (simp add: bindE_def)
    then show ?thesis using replaceKeyword_Inl[of P a string m e] Inl by simp
  next
    case (Inr s)
    then have "replaceKeywordsLoop P a s ms = Inl e" using Cons.prems by (simp add: bindE_def)
    then show ?thesis by (rule Cons.IH)
  qed
qed

text \<open>
  C1 (as amended). For every template, every document record and every platform, the
  string that textReplace returns holds no token that lies within one line: no opening
  brace followed by a closing brace with no line terminator between them (\<open>hasToken_iff\<close>
  states the token in terms of the string). This covers the templates made of the known
  placeholder forms. Braces that enclose a line terminator are not covered.
  textReplace returns unless the RegExp constructor throws on a pattern built from a key
  or a match, or the \<open>keywords\<close> property is neither falsy nor an array.
\<close>

theorem textReplace_no_token:
  "case textReplace P template a d of
     Inr out \<Rightarrow> \<not> hasToken out
   | Inl e \<Rightarrow> (e = TypeError \<and> keywordList a = Inl TypeError) \<or>
             (e = SyntaxError \<and> (\<exists>src subj rep. regexpReplace P src subj rep = None))"
proof (cases "replaceFields P d template a")
  case (Inl e)
  then show ?thesis using replaceFields_Inl[OF Inl] by (simp add: textReplace_def bindE_def)
next
  case (Inr s1)
  show ?thesis
  proof (cases "replaceKeywords P a (replaceDates P s1)")
    case (Inl e)
    then show ?thesis using Inr replaceKeywordsLoop_Inl[of P a _ _ e]
      by (simp add: textReplace_def bindE_def replaceKeywords_def)
  next
    case r: (Inr s3)
    then show ?thesis using Inr stripBraces_no_token by (simp add: textReplace_def bindE_def)
  qed
qed

theorem textReplace_no_token_witness:
  "textReplace examplePlatform (js ''{title:kebab}-{date:YYYY}{unknown}'')
      [(js ''title'', JStr (js ''Hello World'')), (js ''content'', JStr (js ''<p>{x}</p>''))] None
     = Inr (js ''hello-world-2024'') \<and>
   \<not> hasToken (js ''hello-world-2024'')"
proof -
  have v: "textReplace examplePlatform (js ''{title:kebab}-{date:YYYY}{unknown}'')
      [(js ''title'', JStr (js ''Hello World'')), (js ''content'', JStr (js ''<p>{x}</p>''))] None
     = Inr (js ''hello-world-2024'')"
    by (simp add: js_def ch_defs dateTail_def textReplace_def bindE_def replaceField_def Let_def
        regexpReplaceE_def examplePlatform_def replaceAllStr_def fieldString_def kebabCase_def
        snakeCase_def camelCase_def pascalCase_def mapFirstChar_def asciiLower_def asciiUpper_def
        isWhiteSpace_def replaceDates_def replaceKeywords_def substring_def)
  show ?thesis
    using textReplace_no_token[where P = examplePlatform
        and template = "js ''{title:kebab}-{date:YYYY}{unknown}''"
        and a = "[(js ''title'', JStr (js ''Hello World'')), (js ''content'', JStr (js ''<p>{x}</p>''))]"
        and d = None]
    by (simp only: v sum.case simp_thms)
qed

text \<open>
  C1 as stated fails: the dot of the patterns \<^verbatim>\<open>/{keywords:?(.*)?}/g\<close> and \<^verbatim>\<open>/{(.*?)}/g\<close>
  does not match a line terminator. The template of the known form
  \<open>{keywords:separator}\<close> whose separator is a line feed, a hyphen and a space is neither
  replaced by the keywords nor removed: textReplace returns it as it is, braces included.
\<close>

theorem textReplace_multiline_counterexample:
  "textReplace examplePlatform (js ''{keywords:'' @ [chNewline] @ js ''- }'')
      [(js ''title'', JStr (js ''T'')), (js ''keywords'', JArr [js ''a'', js ''b''])] None
     = Inr (js ''{keywords:'' @ [chNewline] @ js ''- }'') \<and>
   hasBracePair (js ''{keywords:'' @ [chNewline] @ js ''- }'')"
  by (simp add: js_def ch_defs dateTail_def textReplace_def bindE_def replaceField_def Let_def
        regexpReplaceE_def examplePlatform_def replaceAllStr_def fieldString_def kebabCase_def
        snakeCase_def camelCase_def pascalCase_def mapFirstChar_def asciiLower_def asciiUpper_def
        isWhiteSpace_def replaceDates_def replaceKeywords_def substring_def)

subsection \<open>validateUri\<close>






subsection \<open>Code fences\<close>

lemma fenceSizeFor_foldl_ge:
  "(m::nat) \<le> foldl (\<lambda>fenceSize n. if n \<ge> fenceSize then n + 1 else fenceSize) m ns"
proof (induction ns arbitrary: m)
  case Nil
  then show ?case by simp
next
  case (Cons n ns)
  have "(if n \<ge> m then n + 1 else m) \<le> foldl (\<lambda>fenceSize n. if n \<ge> fenceSize then n + 1 else fenceSize) (if n \<ge> m then n + 1 else m) ns"
    by (rule Cons.IH)
  then show ?case by (auto split: if_splits)
qed

lemma fenceSizeFor_foldl_gt:
  "n \<in> set ns \<Longrightarrow> (n::nat) < foldl (\<lambda>fenceSize n. if n \<ge> fenceSize then n + 1 else fenceSize) m ns"
proof (induction ns arbitrary: m)
  case Nil
  then show ?case by simp
next
  case (Cons k ns)
  show ?case
  proof (cases "n = k")
    case True
    have "(if k \<ge> m then k + 1 else m) \<le> foldl (\<lambda>fenceSize n. if n \<ge> fenceSize then n + 1 else fenceSize) (if k \<ge> m then k + 1 else m) ns"
      by (rule fenceSizeFor_foldl_ge)
    then show ?thesis using True by (auto split: if_splits)
  next
    case False
    then have "n \<in> set ns" using Cons.prems by simp
    then show ?thesis using Cons.IH by simp
  qed
qed

lemma convertToFencedCodeBlock_fence_longer:
  "n \<in> set (fenceMatches fenceChar code) \<Longrightarrow> n < fenceSizeFor fenceChar code"
  unfolding fenceSizeFor_def by (rule fenceSizeFor_foldl_gt)

text \<open>
  C6 does not hold of the code. The rule for a \<open>pre\<close> element with a \<open>code\<close> child sets
  the fence size to 3 and never looks at the code: a code body that starts with three
  backticks is fenced with three backticks. convertToFencedCodeBlock, used for the other
  \<open>pre\<close> elements, does scan the body (at the start of each line) and gives 4 here.
\<close>

theorem fencedCodeBlock_fence_is_three:
  "fencedCodeBlock (replicate 3 chBacktick) [] (replicate 3 chBacktick @ js ''x'')
     = [chNewline, chNewline] @ replicate 3 chBacktick @ [chNewline]
       @ replicate 3 chBacktick @ js ''x''
       @ [chNewline] @ replicate 3 chBacktick @ [chNewline, chNewline] \<and>
   fenceMatches chBacktick (replicate 3 chBacktick @ js ''x'') = [3] \<and>
   fenceSizeFor chBacktick (replicate 3 chBacktick @ js ''x'') = 4"
  by (simp add: fencedCodeBlock_def repeat_def fenceSizeFor_def fenceMatches_def js_def
      chBacktick_def isLineTerminator_def numeral_3_eq_3)

subsection \<open>Special characters in the output\<close>

lemma stripSpecialChars_clean: "c \<in> set (stripSpecialChars s) \<Longrightarrow> \<not> isSpecialChar c"
  by (simp add: stripSpecialChars_def)

lemma turndown_clean:
  "turndown engine content opts = Inr r \<Longrightarrow> c \<in> set (document r) \<Longrightarrow> \<not> isSpecialChar c"
  by (auto simp: turndown_def bindE_def stripSpecialChars_def split: sum.splits)

lemma convertArticleToMarkdown_dispatch:
  assumes "textReplace P (imagePrefix opts) a (disallowedChars opts) = Inr t"
    and "outputFormat opts = js ''org''"
  shows "convertArticleToMarkdown P markdownEngine orgEngine preDownload defaultOptions a None (Some opts)
     = convertArticleToOrg P orgEngine preDownload a
         (opts\<lparr>imagePrefix :=
             joinWith [chSlash]
               (map (\<lambda>piece. case generateValidFileName (Some piece) (disallowedChars opts) of
                                Some r \<Rightarrow> r | None \<Rightarrow> piece)
                  (splitOn chSlash t))\<rparr>)"
  using assms by (simp add: convertArticleToMarkdown_def bindE_def Let_def)

text \<open>
  C8 does not hold of the Org path. orgdown strips the special characters from the
  converted body, and convertArticleToOrg puts the substituted preamble in front of
  the stripped text: a zero-width space (U+200B) of the preamble template, or of the
  title it quotes, is in the final output, or in the text handed to preDownloadImages
  when the images are downloaded first. This is so whenever the engine returns a body,
  whatever the body. On the Markdown path turndown adds the front matter and the back
  matter before the characters are stripped (\<open>turndown_clean\<close>). convertArticleToMarkdown
  hands the article over to convertArticleToOrg when the output format is \<open>org\<close>
  (\<open>convertArticleToMarkdown_dispatch\<close>).
\<close>

theorem convertArticleToOrg_preamble_not_stripped:
  "convertArticleToOrg P engine preDownload [(js ''content'', JStr c)]
      (opts\<lparr>includeTemplate := True, orgPreambleTemplate := [0x200B]\<rparr>)
     = bindE (engine c) (\<lambda>r.
         if downloadImages opts \<and> downloadMode opts = js ''downloadsApi''
         then preDownload (snd r) ([0x200B, chNewline, chNewline] @ stripSpecialChars (fst r))
         else Inr \<lparr>document = [0x200B, chNewline, chNewline] @ stripSpecialChars (fst r),
                   images = snd r\<rparr>) \<and>
   convertArticleToOrg examplePlatform engine preDownload
      [(js ''title'', JStr [0x41, 0x200B, 0x42]), (js ''content'', JStr c)]
      (opts\<lparr>includeTemplate := True, orgPreambleTemplate := js ''#+TITLE: {title}''\<rparr>)
     = bindE (engine c) (\<lambda>r.
         if downloadImages opts \<and> downloadMode opts = js ''downloadsApi''
         then preDownload (snd r)
                (js ''#+TITLE: '' @ [0x41, 0x200B, 0x42, chNewline, chNewline]
                 @ stripSpecialChars (fst r))
         else Inr \<lparr>document = js ''#+TITLE: '' @ [0x41, 0x200B, 0x42, chNewline, chNewline]
                              @ stripSpecialChars (fst r),
                   images = snd r\<rparr>) \<and>
   isSpecialChar 0x200B"
proof -
  have a: "textReplace P [0x200B] [(js ''content'', JStr c)] None = Inr [0x200B]"
    by (simp add: textReplace_def bindE_def replaceField_def replaceDates_def replaceKeywords_def
        js_def ch_defs)
  have b: "textReplace examplePlatform (js ''#+TITLE: {title}'')
      [(js ''title'', JStr [0x41, 0x200B, 0x42]), (js ''content'', JStr c)] None
      = Inr (js ''#+TITLE: '' @ [0x41, 0x200B, 0x42])"
    by (simp add: js_def ch_defs dateTail_def textReplace_def bindE_def replaceField_def Let_def
        regexpReplaceE_def examplePlatform_def replaceAllStr_def fieldString_def kebabCase_def
        snakeCase_def camelCase_def pascalCase_def mapFirstChar_def asciiLower_def asciiUpper_def
        isWhiteSpace_def replaceDates_def replaceKeywords_def substring_def)
  have c: "isSpecialChar 0x200B" by (simp add: isSpecialChar_def)
  show ?thesis
  proof (cases "engine c")
    case (Inl e)
    then show ?thesis
      using a b c
      by (simp add: convertArticleToOrg_def bindE_def orgdown_def engineInput_def js_def)
  next
    case (Inr r)
    then show ?thesis
      using a b c
      by (simp add: convertArticleToOrg_def bindE_def orgdown_def engineInput_def js_def)
  qed
qed

subsection \<open>Download tracking\<close>

lemma handleDownloadChange_clears_id_maps:
  assumes "activeDownloads t (deltaId delta) = Some u"
    and "deltaState delta = Some Complete \<or> deltaState delta = Some Interrupted"
  shows "activeDownloads (handleDownloadChange delta t) (deltaId delta) = None \<and>
         markSnipDownloads (handleDownloadChange delta t) (deltaId delta) = None"
  using assms by (auto simp: handleDownloadChange_def releaseDownload_def Let_def)

text \<open>
  C7 does not hold of the code. handleImageDownloads records an image with a \<open>blob:\<close>
  URL in markSnipUrls and never moves the record to markSnipDownloads. When the download
  completes, handleDownloadChange deletes the entries of the identifier first; the
  cleanup of the URL record that follows looks the identifier up in markSnipDownloads,
  finds nothing, and the record of the URL stays in markSnipUrls.
\<close>

theorem handleDownloadChange_leaves_url_record:
  "(let src = js ''blob:chrome-extension://x/1'';
        t1 = handleImageDownloads (\<lambda>u f. Some 7) [] (js ''note'') [(src, js ''a.png'')] emptyTracking;
        t2 = handleDownloadChange \<lparr>deltaId = 7, deltaState = Some Complete\<rparr> t1
    in activeDownloads t1 7 = Some src \<and>
       activeDownloads t2 7 = None \<and>
       markSnipDownloads t2 7 = None \<and>
       markSnipUrls t2 src =
         Some \<lparr>infoFilename = js ''a.png'', infoIsImage = True, infoIsMarkdown = False,
               infoUrl = None\<rparr> \<and>
       cleanupMessages t2 = [src])"
  by (simp add: handleImageDownloads_def downloadImage_def imageDestPath_def lastIndexOf_def
      substring_def emptyTracking_def handleDownloadChange_def releaseDownload_def Let_def
      js_def chSlash_def)

subsection \<open>The table matrix\<close>

lemma matrixRow_setAt:
  "matrixRow (setAt m t cells) r = (if r = t then cells else matrixRow m r)"
  by (auto simp: matrixRow_def getAt_def setAt_def nth_append nth_list_update split: option.splits)














subsection \<open>The emitted table\<close>

lemma length_setAt: "length (setAt xs i v) = max (length xs) (Suc i)"
  by (simp add: setAt_def)

lemma placeOne_in_range:
  assumes "t < length m" and "m ! t = Some cells"
  shows "fst (placeOne content t (m, w)) = m[t := Some (cells @ [content])]"
  using assms by (simp add: placeOne_def Let_def getAt_def matrixRow_def setAt_def)

lemma matrixRow_ensure:
  "matrixRow (case getAt m t of None \<Rightarrow> setAt m t [] | Some cells \<Rightarrow> m) r = matrixRow m r"
proof (cases "getAt m t")
  case None
  then have "matrixRow m t = []" by (simp add: matrixRow_def)
  then show ?thesis using None by (simp add: matrixRow_setAt)
next
  case (Some cells)
  then show ?thesis by simp
qed

lemma placeOne_widths_length_st:
  "length (snd (placeOne content t st))
     = max (length (snd st)) (Suc (length (matrixRow (fst st) t)))"
proof -
  define tc where "tc = length (matrixRow (fst st) t)"
  define v where "v = length (simplifiedContent content)"
  have w2: "snd (placeOne content t st) =
      (case getAt (snd st) tc of
         None \<Rightarrow> setAt (snd st) tc v
       | Some cw \<Rightarrow> if cw = 0 \<or> v > cw then setAt (snd st) tc v else snd st)"
    by (simp add: placeOne_def Let_def matrixRow_ensure tc_def v_def split: option.splits)
  show ?thesis
  proof (cases "getAt (snd st) tc")
    case None
    then show ?thesis using w2 by (simp add: length_setAt tc_def)
  next
    case (Some cw)
    then have "tc < length (snd st)" by (auto simp: getAt_def split: if_splits)
    then show ?thesis using w2 Some by (auto simp: length_setAt tc_def max_def)
  qed
qed

lemma placeOne_widths_length:
  "length (snd (placeOne content t (m, w))) = max (length w) (Suc (length (matrixRow m t)))"
  using placeOne_widths_length_st[of content t "(m, w)"] by simp

lemma placeCell_plain: "plainCell c \<Longrightarrow> placeCell ri c st = placeOne (rendered c) ri st"
  by (simp add: placeCell_def plainCell_def spanOf_def)

lemma placeRow_plain:
  assumes "\<forall>c\<in>set cs. plainCell c" and "ri < length m" and "m ! ri = Some cells0"
  shows "fst (placeRow ri cs (m, w)) = m[ri := Some (cells0 @ map rendered cs)] \<and>
         length (snd (placeRow ri cs (m, w)))
           = (if cs = [] then length w else max (length w) (length cells0 + length cs))"
  using assms
proof (induction cs arbitrary: m w cells0)
  case Nil
  have "m[ri := m ! ri] = m" by (rule list_update_id)
  then show ?case using Nil by (simp add: placeRow_def)
next
  case (Cons c cs)
  obtain m' w' where st': "placeOne (rendered c) ri (m, w) = (m', w')" by (cases "placeOne (rendered c) ri (m, w)")
  have m': "m' = m[ri := Some (cells0 @ [rendered c])]"
    using placeOne_in_range[OF Cons.prems(2,3), of "rendered c" w] st' by simp
  have w': "length w' = max (length w) (Suc (length cells0))"
    using placeOne_widths_length[of "rendered c" ri m w] st' Cons.prems(2,3)
    by (simp add: matrixRow_def getAt_def)
  have step: "placeRow ri (c # cs) (m, w) = placeRow ri cs (m', w')"
    using Cons.prems(1) st' by (simp add: placeRow_def placeCell_plain)
  have "fst (placeRow ri cs (m', w')) = m'[ri := Some ((cells0 @ [rendered c]) @ map rendered cs)] \<and>
         length (snd (placeRow ri cs (m', w')))
           = (if cs = [] then length w' else max (length w') (length (cells0 @ [rendered c]) + length cs))"
    by (rule Cons.IH) (use Cons.prems m' in auto)
  then show ?case unfolding step using m' w' by (auto simp: max_def)
qed

lemma placeRows_plain:
  assumes "\<forall>r\<in>set rs. \<forall>c\<in>set r. plainCell c"
    and "k + length rs \<le> length m"
    and "\<forall>i < length rs. m ! (k + i) = Some []"
  shows "fst (placeRows k rs (m, w))
           = take k m @ map (\<lambda>r. Some (map rendered r)) rs @ drop (k + length rs) m"
  using assms
proof (induction rs arbitrary: k m w)
  case Nil
  then show ?case by simp
next
  case (Cons r rs)
  obtain m' w' where st': "placeRow k r (m, w) = (m', w')" by (cases "placeRow k r (m, w)")
  have k: "k < length m" using Cons.prems(2) by simp
  have mk: "m ! k = Some []" using Cons.prems(3) by force
  have m': "m' = m[k := Some (map rendered r)]"
    using placeRow_plain[of r k m "[]" w] Cons.prems(1) k mk st' by simp
  have ih: "fst (placeRows (Suc k) rs (m', w'))
      = take (Suc k) m' @ map (\<lambda>r. Some (map rendered r)) rs @ drop (Suc k + length rs) m'"
  proof (rule Cons.IH)
    show "\<forall>r\<in>set rs. \<forall>c\<in>set r. plainCell c" using Cons.prems(1) by simp
    show "Suc k + length rs \<le> length m'" using Cons.prems(2) m' by simp
    show "\<forall>i<length rs. m' ! (Suc k + i) = Some []"
    proof (intro allI impI)
      fix i assume "i < length rs"
      then have "m ! (k + Suc i) = Some []" using Cons.prems(3) by (metis Suc_less_eq length_Cons)
      then show "m' ! (Suc k + i) = Some []" using m' by simp
    qed
  qed
  have t: "take (Suc k) m' = take k m @ [Some (map rendered r)]"
    using k m' by (simp add: take_Suc_conv_app_nth)
  have d: "drop (Suc k + length rs) m' = drop (k + length (r # rs)) m"
    using m' by simp
  show ?case using st' ih t d by simp
qed

lemma placeRows_plain_widths:
  assumes "\<forall>r\<in>set rs. (\<forall>c\<in>set r. plainCell c) \<and> length r = M"
    and "k + length rs \<le> length m"
    and "\<forall>i < length rs. m ! (k + i) = Some []"
    and "0 < M"
  shows "length (snd (placeRows k rs (m, w))) = (if rs = [] then length w else max (length w) M)"
  using assms
proof (induction rs arbitrary: k m w)
  case Nil
  then show ?case by simp
next
  case (Cons r rs)
  obtain m' w' where st': "placeRow k r (m, w) = (m', w')" by (cases "placeRow k r (m, w)")
  have k: "k < length m" using Cons.prems(2) by simp
  have mk: "m ! k = Some []" using Cons.prems(3) by force
  have rM: "length r = M" "r \<noteq> []" using Cons.prems(1,4) by auto
  have pr: "fst (placeRow k r (m, w)) = m[k := Some ([] @ map rendered r)] \<and>
         length (snd (placeRow k r (m, w)))
           = (if r = [] then length w else max (length w) (length ([]::jsstring list) + length r))"
    by (rule placeRow_plain) (use Cons.prems(1) k mk in auto)
  have m': "m' = m[k := Some (map rendered r)]" using pr st' by simp
  have w': "length w' = max (length w) M" using pr st' rM by simp
  have ih: "length (snd (placeRows (Suc k) rs (m', w'))) = (if rs = [] then length w' else max (length w') M)"
  proof (rule Cons.IH)
    show "\<forall>r\<in>set rs. (\<forall>c\<in>set r. plainCell c) \<and> length r = M" using Cons.prems(1) by simp
    show "Suc k + length rs \<le> length m'" using Cons.prems(2) m' by simp
    show "\<forall>i<length rs. m' ! (Suc k + i) = Some []"
    proof (intro allI impI)
      fix i assume "i < length rs"
      then have "m ! (k + Suc i) = Some []" using Cons.prems(3) by (metis Suc_less_eq length_Cons)
      then show "m' ! (Suc k + i) = Some []" using m' by simp
    qed
    show "0 < M" by (rule Cons.prems(4))
  qed
  show ?case using st' ih w' by (auto simp: max_def)
qed

lemma buildMatrix_plain:
  assumes "\<forall>r\<in>set rows. (\<forall>c\<in>set r. plainCell c) \<and> length r = M" and "0 < M" and "rows \<noteq> []"
  shows "fst (buildMatrix rows) = map (\<lambda>r. Some (map rendered r)) rows"
    and "length (snd (buildMatrix rows)) = M"
proof -
  have a: "\<forall>r\<in>set rows. \<forall>c\<in>set r. plainCell c" using assms(1) by simp
  have "fst (placeRows 0 rows (replicate (length rows) (Some []), []))
      = take 0 (replicate (length rows) (Some [])) @ map (\<lambda>r. Some (map rendered r)) rows
        @ drop (0 + length rows) (replicate (length rows) (Some []))"
    by (rule placeRows_plain) (use a in auto)
  then show "fst (buildMatrix rows) = map (\<lambda>r. Some (map rendered r)) rows"
    by (simp add: buildMatrix_def initialTable_def)
  have "length (snd (placeRows 0 rows (replicate (length rows) (Some []), [])))
      = (if rows = [] then length ([]::nat option list) else max (length ([]::nat option list)) M)"
    by (rule placeRows_plain_widths) (use assms in auto)
  then show "length (snd (buildMatrix rows)) = M"
    using assms(3) by (simp add: buildMatrix_def initialTable_def)
qed


lemma formatCell_set: "set (formatCell tf w content i) \<subseteq> insert chSpace (set content)"
  by (auto simp: formatCell_def Let_def)

lemma count_joinWith:
  assumes "\<forall>x\<in>set xs. count_list x p = 0"
  shows "count_list (joinWith [p] xs) p = length xs - 1"
  using assms by (induction "[p]" xs rule: joinWith.induct) simp_all

lemma set_joinWith: "set (joinWith sep xs) \<subseteq> set sep \<union> (\<Union>x\<in>set xs. set x)"
  by (induction sep xs rule: joinWith.induct) auto

lemma formatted_cells_clean:
  assumes "\<forall>c\<in>set cells. chPipe \<notin> set c \<and> chNewline \<notin> set c"
    and "x \<in> set (map (\<lambda>(i, content). formatCell tf w content i) (enumerate n cells))"
  shows "chPipe \<notin> set x \<and> chNewline \<notin> set x"
proof -
  from assms(2) obtain i content where ic: "(i, content) \<in> set (enumerate n cells)"
    and x: "x = formatCell tf w content i" by auto
  then have "content \<in> set cells" by (auto simp: in_set_enumerate_eq)
  then have "chPipe \<notin> set content \<and> chNewline \<notin> set content" using assms(1) by blast
  moreover have "chPipe \<noteq> chSpace" "chNewline \<noteq> chSpace" by (simp_all add: ch_defs)
  ultimately show ?thesis using formatCell_set[of tf w content i] x by auto
qed

lemma tableLine_shape:
  assumes "\<forall>c\<in>set cells. chPipe \<notin> set c \<and> chNewline \<notin> set c" and "cells \<noteq> []"
  shows "count_list (tableLine tf w cells) chPipe = length cells + 1
         \<and> chNewline \<notin> set (tableLine tf w cells)"
proof -
  let ?fs = "map (\<lambda>(i, content). formatCell tf w content i) (enumerate 0 cells)"
  have clean: "\<forall>x\<in>set ?fs. chPipe \<notin> set x \<and> chNewline \<notin> set x"
    using formatted_cells_clean[OF assms(1)] by blast
  then have "\<forall>x\<in>set ?fs. count_list x chPipe = 0" by (simp add: count_list_0_iff)
  then have "count_list (joinWith [chPipe] ?fs) chPipe = length ?fs - 1" by (rule count_joinWith)
  then have c: "count_list (joinWith [chPipe] ?fs) chPipe = length cells - 1" by simp
  have "chNewline \<noteq> chPipe" by (simp add: ch_defs)
  then have n: "chNewline \<notin> set (joinWith [chPipe] ?fs)"
    using set_joinWith[of "[chPipe]" ?fs] clean by auto
  show ?thesis using c n assms(2) \<open>chNewline \<noteq> chPipe\<close>
    by (cases cells) (simp_all add: tableLine_def)
qed

lemma separatorLine_shape:
  assumes "w \<noteq> []"
  shows "count_list (separatorLine w) chPipe = length w + 1 \<and> chNewline \<notin> set (separatorLine w)"
proof -
  let ?ds = "map (\<lambda>cw. case cw of None \<Rightarrow> [] | Some width \<Rightarrow> replicate (max 3 width + 2) (0x2D::nat)) w"
  have clean: "\<forall>x\<in>set ?ds. chPipe \<notin> set x \<and> chNewline \<notin> set x"
    by (auto simp: ch_defs split: option.splits)
  then have "\<forall>x\<in>set ?ds. count_list x chPipe = 0" by (simp add: count_list_0_iff)
  then have "count_list (joinWith [chPipe] ?ds) chPipe = length ?ds - 1" by (rule count_joinWith)
  then have c: "count_list (joinWith [chPipe] ?ds) chPipe = length w - 1" by simp
  have "chNewline \<noteq> chPipe" by (simp add: ch_defs)
  then have n: "chNewline \<notin> set (joinWith [chPipe] ?ds)"
    using set_joinWith[of "[chPipe]" ?ds] clean by auto
  show ?thesis using c n assms \<open>chNewline \<noteq> chPipe\<close>
    by (cases w) (simp_all add: separatorLine_def)
qed

lemma replicate_5: "replicate 5 x = [x, x, x, x, x]"
  by (simp add: eval_nat_numeral)

lemmas table_eval = replicate_5 tableReplacement_def tableLines_def buildMatrix_def initialTable_def
  placeRow_def placeCell_def spanOf_def placeOne_def getAt_def setAt_def matrixRow_def Let_def
  tableRows_def tableLine_def separatorLine_def formatCell_def visibleText_def
  simplifiedContent_def linkAt_def isFormatChar_def js_def ch_defs defaultTableFormatting_def
  plainTextCell_def parsedTable_def upt_rec

text \<open>
  C3 (as amended). The rows the rule reads are \<open>tableRows\<close>: the first row of the \<open>thead\<close>
  followed by the children of the \<open>tbody\<close>; without a row in a \<open>thead\<close>, the children of
  the \<open>tbody\<close>; without a \<open>tbody\<close>, all \<open>tr\<close> elements of the table. When these are a header
  row and N data rows, each of M cells (M at least 1), no cell with a \<open>rowspan\<close> or
  \<open>colspan\<close> attribute and no rendered cell string with a pipe or a line feed in it, the
  table is emitted as two line feeds and N+2 lines (header, separator, data rows), each
  ended by a line feed and holding exactly M+1 pipe characters. For a table that the
  HTML parser builds from \<open>tr\<close> elements alone, the rows read are all its rows. With the
  default table formatting, the table of the rows (A, B) and (1, 2), a header row and
  one data row, gives the three lines \<open>| A | B |\<close>, \<open>|-----|-----|\<close> and \<open>| 1 | 2 |\<close>.
\<close>

theorem tableReplacement_shape:
  "(tableRows node = header # dataRows \<and> 0 < M \<and>
    (\<forall>r\<in>set (header # dataRows). length r = M \<and>
       (\<forall>c\<in>set r. colspanAttr c = None \<and> rowspanAttr c = None \<and>
                   chPipe \<notin> set (rendered c) \<and> chNewline \<notin> set (rendered c))) \<longrightarrow>
    (\<exists>ls. tableReplacement tf node = [chNewline, chNewline] @ concat (map (\<lambda>l. l @ [chNewline]) ls) \<and>
          length ls = length dataRows + 2 \<and>
          (\<forall>l\<in>set ls. chNewline \<notin> set l \<and> count_list l chPipe = M + 1))) \<and>
   tableRows (parsedTable rows) = rows \<and>
   tableReplacement defaultTableFormatting
      (parsedTable [[plainTextCell (js ''A''), plainTextCell (js ''B'')],
                    [plainTextCell (js ''1''), plainTextCell (js ''2'')]])
     = [chNewline, chNewline] @ js ''| A | B |'' @ [chNewline] @ js ''|-----|-----|'' @ [chNewline]
       @ js ''| 1 | 2 |'' @ [chNewline]"
proof (intro conjI)
  show "tableRows (parsedTable rows) = rows" by (simp add: tableRows_def parsedTable_def)
next
  show "tableReplacement defaultTableFormatting
      (parsedTable [[plainTextCell (js ''A''), plainTextCell (js ''B'')],
                    [plainTextCell (js ''1''), plainTextCell (js ''2'')]])
     = [chNewline, chNewline] @ js ''| A | B |'' @ [chNewline] @ js ''|-----|-----|'' @ [chNewline]
       @ js ''| 1 | 2 |'' @ [chNewline]"
    by (simp add: table_eval)
next
  show "tableRows node = header # dataRows \<and> 0 < M \<and>
    (\<forall>r\<in>set (header # dataRows). length r = M \<and>
       (\<forall>c\<in>set r. colspanAttr c = None \<and> rowspanAttr c = None \<and>
                   chPipe \<notin> set (rendered c) \<and> chNewline \<notin> set (rendered c))) \<longrightarrow>
    (\<exists>ls. tableReplacement tf node = [chNewline, chNewline] @ concat (map (\<lambda>l. l @ [chNewline]) ls) \<and>
          length ls = length dataRows + 2 \<and>
          (\<forall>l\<in>set ls. chNewline \<notin> set l \<and> count_list l chPipe = M + 1))"
  proof (intro impI, elim conjE)
    assume rows: "tableRows node = header # dataRows" and M: "0 < M"
      and all: "\<forall>r\<in>set (header # dataRows). length r = M \<and>
         (\<forall>c\<in>set r. colspanAttr c = None \<and> rowspanAttr c = None \<and>
                     chPipe \<notin> set (rendered c) \<and> chNewline \<notin> set (rendered c))"
    define st where "st = buildMatrix (header # dataRows)"
    have plain: "\<forall>r\<in>set (header # dataRows). (\<forall>c\<in>set r. plainCell c) \<and> length r = M"
      using all by (simp add: plainCell_def)
    have m: "fst st = map (\<lambda>r. Some (map rendered r)) (header # dataRows)"
      unfolding st_def by (rule buildMatrix_plain(1)[OF plain M]) simp
    have w: "length (snd st) = M"
      unfolding st_def by (rule buildMatrix_plain(2)[OF plain M]) simp
    define ls where "ls = tableLines tf st"
    have ls: "ls = tableLine tf (snd st) (map rendered header) # separatorLine (snd st)
                   # map (\<lambda>r. tableLine tf (snd st) (map rendered r)) dataRows"
      unfolding ls_def tableLines_def m by (simp add: comp_def)
    have cellsok: "\<And>r. r \<in> set (header # dataRows) \<Longrightarrow>
        count_list (tableLine tf (snd st) (map rendered r)) chPipe = M + 1
        \<and> chNewline \<notin> set (tableLine tf (snd st) (map rendered r))"
    proof -
      fix r assume r: "r \<in> set (header # dataRows)"
      then have len: "length r = M" and cl: "\<forall>c\<in>set r. chPipe \<notin> set (rendered c) \<and> chNewline \<notin> set (rendered c)"
        using all by auto
      have "count_list (tableLine tf (snd st) (map rendered r)) chPipe = length (map rendered r) + 1
           \<and> chNewline \<notin> set (tableLine tf (snd st) (map rendered r))"
        by (rule tableLine_shape) (use cl len M in auto)
      then show "count_list (tableLine tf (snd st) (map rendered r)) chPipe = M + 1
        \<and> chNewline \<notin> set (tableLine tf (snd st) (map rendered r))" using len by simp
    qed
    have sep: "count_list (separatorLine (snd st)) chPipe = M + 1 \<and> chNewline \<notin> set (separatorLine (snd st))"
      using separatorLine_shape[of "snd st"] w M by auto
    have "tableReplacement tf node = [chNewline, chNewline] @ concat (map (\<lambda>l. l @ [chNewline]) ls)"
      by (simp add: tableReplacement_def rows ls_def st_def)
    moreover have "length ls = length dataRows + 2" by (simp add: ls)
    moreover have "\<forall>l\<in>set ls. chNewline \<notin> set l \<and> count_list l chPipe = M + 1"
      using cellsok sep by (auto simp: ls)
    ultimately show "\<exists>ls. tableReplacement tf node = [chNewline, chNewline] @ concat (map (\<lambda>l. l @ [chNewline]) ls) \<and>
            length ls = length dataRows + 2 \<and>
            (\<forall>l\<in>set ls. chNewline \<notin> set l \<and> count_list l chPipe = M + 1)"
      by blast
  qed
qed


theorem tableReplacement_shape_witness:
  "\<exists>ls. tableReplacement defaultTableFormatting
          (parsedTable [[plainTextCell (js ''A''), plainTextCell (js ''B'')],
                        [plainTextCell (js ''1''), plainTextCell (js ''2'')]])
        = [chNewline, chNewline] @ concat (map (\<lambda>l. l @ [chNewline]) ls) \<and>
      length ls = length [[plainTextCell (js ''1''), plainTextCell (js ''2'')]] + 2 \<and>
      (\<forall>l\<in>set ls. chNewline \<notin> set l \<and> count_list l chPipe = 2 + 1)"
proof -
  have hyp: "tableRows (parsedTable [[plainTextCell (js ''A''), plainTextCell (js ''B'')],
                                    [plainTextCell (js ''1''), plainTextCell (js ''2'')]])
      = [plainTextCell (js ''A''), plainTextCell (js ''B'')]
        # [[plainTextCell (js ''1''), plainTextCell (js ''2'')]] \<and> 0 < (2::nat) \<and>
    (\<forall>r\<in>set ([plainTextCell (js ''A''), plainTextCell (js ''B'')]
               # [[plainTextCell (js ''1''), plainTextCell (js ''2'')]]). length r = 2 \<and>
       (\<forall>c\<in>set r. colspanAttr c = None \<and> rowspanAttr c = None \<and>
                   chPipe \<notin> set (rendered c) \<and> chNewline \<notin> set (rendered c)))"
    by (simp add: tableRows_def parsedTable_def plainTextCell_def js_def ch_defs)
  show ?thesis
    using tableReplacement_shape[where tf = defaultTableFormatting and M = 2
      and node = "parsedTable [[plainTextCell (js ''A''), plainTextCell (js ''B'')],
                               [plainTextCell (js ''1''), plainTextCell (js ''2'')]]"
      and header = "[plainTextCell (js ''A''), plainTextCell (js ''B'')]"
      and dataRows = "[[plainTextCell (js ''1''), plainTextCell (js ''2'')]]"] hyp
    by blast
qed

lemma example_pipe:
  "tableReplacement defaultTableFormatting
      (parsedTable [[plainTextCell (js ''A'')], [plainTextCell (js ''x|y'')]])
     = [chNewline, chNewline] @ js ''|  A  |'' @ [chNewline] @ js ''|-----|'' @ [chNewline]
       @ js ''| x|y |'' @ [chNewline]"
  by (simp add: table_eval)

lemma count_concat_lines:
  assumes "\<forall>l\<in>set ls. count_list l p = k" and "p \<noteq> nl"
  shows "count_list (concat (map (\<lambda>l. l @ [nl]) ls)) p = length ls * k"
  using assms by (induction ls) auto

lemma example_tfoot:
  "tableReplacement defaultTableFormatting
      \<lparr>theadRow = Some [plainTextCell (js ''A''), plainTextCell (js ''B'')],
       tbodyChildren = Some [[plainTextCell (js ''1''), plainTextCell (js ''2'')]],
       allRows = [[plainTextCell (js ''A''), plainTextCell (js ''B'')],
                  [plainTextCell (js ''1''), plainTextCell (js ''2'')],
                  [plainTextCell (js ''3''), plainTextCell (js ''4'')]]\<rparr>
     = [chNewline, chNewline] @ js ''| A | B |'' @ [chNewline] @ js ''|-----|-----|'' @ [chNewline]
       @ js ''| 1 | 2 |'' @ [chNewline]"
  by (simp add: table_eval)

lemma count_newline_lines:
  assumes "\<forall>l\<in>set ls. nl \<notin> set l"
  shows "count_list (concat (map (\<lambda>l. l @ [nl]) ls)) nl = length ls"
  using assms by (induction ls) (auto simp: count_list_0_iff)

text \<open>
  C3 as stated fails, in two ways. The cell converter does not escape, so a cell of the
  text \<open>x|y\<close> is rendered as \<open>x|y\<close> and its line has one pipe more: the table of one
  column with the header A and the data cell \<open>x|y\<close> is emitted with 7 pipes, not as three
  lines of two pipes each. And the rule reads the rows of the \<open>thead\<close> and of the \<open>tbody\<close>
  only: the table with the header row (A, B) in a \<open>thead\<close>, the row (1, 2) in the \<open>tbody\<close>
  and the row (3, 4) in a \<open>tfoot\<close> has two data rows and is emitted as three lines, not
  four; the row (3, 4) is left out.
\<close>

theorem tableReplacement_shape_counterexample:
  "\<not> (\<exists>ls. tableReplacement defaultTableFormatting
              (parsedTable [[plainTextCell (js ''A'')], [plainTextCell (js ''x|y'')]])
            = [chNewline, chNewline] @ concat (map (\<lambda>l. l @ [chNewline]) ls) \<and>
          length ls = 1 + 2 \<and>
          (\<forall>l\<in>set ls. count_list l chPipe = 1 + 1)) \<and>
   length (allRows
      \<lparr>theadRow = Some [plainTextCell (js ''A''), plainTextCell (js ''B'')],
       tbodyChildren = Some [[plainTextCell (js ''1''), plainTextCell (js ''2'')]],
       allRows = [[plainTextCell (js ''A''), plainTextCell (js ''B'')],
                  [plainTextCell (js ''1''), plainTextCell (js ''2'')],
                  [plainTextCell (js ''3''), plainTextCell (js ''4'')]]\<rparr>) = 1 + 2 \<and>
   \<not> (\<exists>ls. tableReplacement defaultTableFormatting
              \<lparr>theadRow = Some [plainTextCell (js ''A''), plainTextCell (js ''B'')],
               tbodyChildren = Some [[plainTextCell (js ''1''), plainTextCell (js ''2'')]],
               allRows = [[plainTextCell (js ''A''), plainTextCell (js ''B'')],
                          [plainTextCell (js ''1''), plainTextCell (js ''2'')],
                          [plainTextCell (js ''3''), plainTextCell (js ''4'')]]\<rparr>
            = [chNewline, chNewline] @ concat (map (\<lambda>l. l @ [chNewline]) ls) \<and>
          length ls = 2 + 2 \<and>
          (\<forall>l\<in>set ls. chNewline \<notin> set l))"
proof (intro conjI)
  show "\<not> (\<exists>ls. tableReplacement defaultTableFormatting
              (parsedTable [[plainTextCell (js ''A'')], [plainTextCell (js ''x|y'')]])
            = [chNewline, chNewline] @ concat (map (\<lambda>l. l @ [chNewline]) ls) \<and>
          length ls = 1 + 2 \<and>
          (\<forall>l\<in>set ls. count_list l chPipe = 1 + 1))"
  proof
    assume "\<exists>ls. tableReplacement defaultTableFormatting
              (parsedTable [[plainTextCell (js ''A'')], [plainTextCell (js ''x|y'')]])
            = [chNewline, chNewline] @ concat (map (\<lambda>l. l @ [chNewline]) ls) \<and>
          length ls = 1 + 2 \<and>
          (\<forall>l\<in>set ls. count_list l chPipe = 1 + 1)"
    then obtain ls where eq: "tableReplacement defaultTableFormatting
              (parsedTable [[plainTextCell (js ''A'')], [plainTextCell (js ''x|y'')]])
            = [chNewline, chNewline] @ concat (map (\<lambda>l. l @ [chNewline]) ls)"
      and len: "length ls = 1 + 2" and pipes: "\<forall>l\<in>set ls. count_list l chPipe = 1 + 1"
      by blast
    have ne: "chPipe \<noteq> chNewline" by (simp add: ch_defs)
    have "count_list (concat (map (\<lambda>l. l @ [chNewline]) ls)) chPipe = length ls * (1 + 1)"
      by (rule count_concat_lines[OF pipes ne])
    then have six: "count_list ([chNewline, chNewline] @ concat (map (\<lambda>l. l @ [chNewline]) ls)) chPipe = 6"
      using len ne by simp
    have seven: "count_list (tableReplacement defaultTableFormatting
              (parsedTable [[plainTextCell (js ''A'')], [plainTextCell (js ''x|y'')]])) chPipe = 7"
      unfolding example_pipe by (simp add: js_def ch_defs)
    show False using six seven eq by simp
  qed
next
  show "length (allRows
      \<lparr>theadRow = Some [plainTextCell (js ''A''), plainTextCell (js ''B'')],
       tbodyChildren = Some [[plainTextCell (js ''1''), plainTextCell (js ''2'')]],
       allRows = [[plainTextCell (js ''A''), plainTextCell (js ''B'')],
                  [plainTextCell (js ''1''), plainTextCell (js ''2'')],
                  [plainTextCell (js ''3''), plainTextCell (js ''4'')]]\<rparr>) = 1 + 2"
    by simp
next
  show "\<not> (\<exists>ls. tableReplacement defaultTableFormatting
              \<lparr>theadRow = Some [plainTextCell (js ''A''), plainTextCell (js ''B'')],
               tbodyChildren = Some [[plainTextCell (js ''1''), plainTextCell (js ''2'')]],
               allRows = [[plainTextCell (js ''A''), plainTextCell (js ''B'')],
                          [plainTextCell (js ''1''), plainTextCell (js ''2'')],
                          [plainTextCell (js ''3''), plainTextCell (js ''4'')]]\<rparr>
            = [chNewline, chNewline] @ concat (map (\<lambda>l. l @ [chNewline]) ls) \<and>
          length ls = 2 + 2 \<and>
          (\<forall>l\<in>set ls. chNewline \<notin> set l))"
  proof
    assume "\<exists>ls. tableReplacement defaultTableFormatting
              \<lparr>theadRow = Some [plainTextCell (js ''A''), plainTextCell (js ''B'')],
               tbodyChildren = Some [[plainTextCell (js ''1''), plainTextCell (js ''2'')]],
               allRows = [[plainTextCell (js ''A''), plainTextCell (js ''B'')],
                          [plainTextCell (js ''1''), plainTextCell (js ''2'')],
                          [plainTextCell (js ''3''), plainTextCell (js ''4'')]]\<rparr>
            = [chNewline, chNewline] @ concat (map (\<lambda>l. l @ [chNewline]) ls) \<and>
          length ls = 2 + 2 \<and>
          (\<forall>l\<in>set ls. chNewline \<notin> set l)"
    then obtain ls where eq: "tableReplacement defaultTableFormatting
              \<lparr>theadRow = Some [plainTextCell (js ''A''), plainTextCell (js ''B'')],
               tbodyChildren = Some [[plainTextCell (js ''1''), plainTextCell (js ''2'')]],
               allRows = [[plainTextCell (js ''A''), plainTextCell (js ''B'')],
                          [plainTextCell (js ''1''), plainTextCell (js ''2'')],
                          [plainTextCell (js ''3''), plainTextCell (js ''4'')]]\<rparr>
            = [chNewline, chNewline] @ concat (map (\<lambda>l. l @ [chNewline]) ls)"
      and len: "length ls = 2 + 2" and nonl: "\<forall>l\<in>set ls. chNewline \<notin> set l"
      by blast
    have "count_list (concat (map (\<lambda>l. l @ [chNewline]) ls)) chNewline = length ls"
      by (rule count_newline_lines[OF nonl])
    then have six: "count_list ([chNewline, chNewline] @ concat (map (\<lambda>l. l @ [chNewline]) ls)) chNewline = 6"
      using len by simp
    have five: "count_list (tableReplacement defaultTableFormatting
              \<lparr>theadRow = Some [plainTextCell (js ''A''), plainTextCell (js ''B'')],
               tbodyChildren = Some [[plainTextCell (js ''1''), plainTextCell (js ''2'')]],
               allRows = [[plainTextCell (js ''A''), plainTextCell (js ''B'')],
                          [plainTextCell (js ''1''), plainTextCell (js ''2'')],
                          [plainTextCell (js ''3''), plainTextCell (js ''4'')]]\<rparr>) chNewline = 5"
      unfolding example_tfoot by (simp add: js_def ch_defs)
    show False using six five eq by simp
  qed
qed

subsection \<open>The image manifest\<close>
















lemma map_of_assign: "map_of (assign il k v) = (map_of il)(k \<mapsto> v)"
  by (induction il) (auto simp: fun_eq_iff)

































end
